theory Spec2Isabelle
  imports Complex_Main
begin

section \<open>Data model\<close>

text \<open>
  A JavaScript string is a sequence of UTF-16 code units; a code unit is modelled as a
  natural number. \<open>js\<close> turns an ASCII literal into such a string, so that the inputs
  of the examples can be written down legibly.
\<close>

type_synonym jsstring = "nat list"

definition js :: "string \<Rightarrow> jsstring" where
  "js s = map of_char s"

text \<open>
  \<open>MindMapNode\<close> of \<open>types.ts\<close>: id, text, children, collapsed and the optional
  note (the field \<open>nnote\<close>).
\<close>

datatype node = Node (nid: jsstring) (ntext: jsstring) (children: "node list")
  (collapsed: bool) (nnote: "jsstring option")

section \<open>Strings (the JavaScript string operations the parser uses)\<close>

text \<open>
  The characters matched by \<open>\s\<close> in a regular expression; \<open>String.prototype.trim\<close>
  strips the same set (white space and line terminators).
\<close>

definition isSpace :: "nat \<Rightarrow> bool" where
  "isSpace c =
     (c = 0x09 \<or> c = 0x0A \<or> c = 0x0B \<or> c = 0x0C \<or> c = 0x0D \<or> c = 0x20 \<or> c = 0xA0
      \<or> c = 0x1680 \<or> (0x2000 \<le> c \<and> c \<le> 0x200A) \<or> c = 0x2028 \<or> c = 0x2029
      \<or> c = 0x202F \<or> c = 0x205F \<or> c = 0x3000 \<or> c = 0xFEFF)"

text \<open>The characters that \<open>.\<close> does not match.\<close>

definition isLineTerminator :: "nat \<Rightarrow> bool" where
  "isLineTerminator c = (c = 0x0A \<or> c = 0x0D \<or> c = 0x2028 \<or> c = 0x2029)"

definition isHash :: "nat \<Rightarrow> bool" where
  "isHash c = (c = 0x23)"

definition isBullet :: "nat \<Rightarrow> bool" where
  "isBullet c = (c = 0x2D \<or> c = 0x2A)"

definition trim :: "jsstring \<Rightarrow> jsstring" where
  "trim s = rev (dropWhile isSpace (rev (dropWhile isSpace s)))"

text \<open>\<open>text.split('\n')\<close>: the result always has at least one element.\<close>

fun splitLines :: "jsstring \<Rightarrow> jsstring list" where
  "splitLines [] = [[]]"
| "splitLines (c # cs) =
     (if c = 0x0A then [] # splitLines cs
      else (case splitLines cs of [] \<Rightarrow> [[c]] | l # ls \<Rightarrow> (c # l) # ls))"

text \<open>\<open>noteLines.join('\n')\<close>.\<close>

fun joinLines :: "jsstring list \<Rightarrow> jsstring" where
  "joinLines [] = []"
| "joinLines [l] = l"
| "joinLines (l # ls) = l @ [0x0A] @ joinLines ls"

text \<open>The decimal digits of a non-negative integer, as a template literal prints it.\<close>

function showNat :: "nat \<Rightarrow> jsstring" where
  "showNat n = (if n < 10 then [0x30 + n] else showNat (n div 10) @ [0x30 + n mod 10])"
  by pat_completeness auto
termination
  by (relation "measure id") auto

declare showNat.simps [simp del]

text \<open>\<open>s.replace(/\s+/g, '_')\<close>: every maximal run of white space becomes one underscore.\<close>

function replaceSpaces :: "jsstring \<Rightarrow> jsstring" where
  "replaceSpaces [] = []"
| "replaceSpaces (c # cs) =
     (if isSpace c then 0x5F # replaceSpaces (dropWhile isSpace cs)
      else c # replaceSpaces cs)"
  by pat_completeness auto
termination
  by (relation "measure length") (auto simp: length_dropWhile_le less_Suc_eq_le)

text \<open>
  The three line tests of \<open>parseMarkdownList\<close>. Each regular expression is anchored at
  the start of the line and is deterministic: \<open>\s*\<close> has to take all the leading
  white space and \<open>#{2,}\<close> (or \<open>#+\<close>) all the markers, because what follows each is a
  character of another class.
\<close>

definition multiLevelHeadingLine :: "jsstring \<Rightarrow> bool" where
  \<comment> \<open>\<open>/^\s*#{2,}\s/.test(line)\<close>\<close>
  "multiLevelHeadingLine line =
     (let r = dropWhile isSpace line; k = length (takeWhile isHash r)
      in 2 \<le> k \<and> (case drop k r of [] \<Rightarrow> False | c # _ \<Rightarrow> isSpace c))"

definition listItemLine :: "jsstring \<Rightarrow> bool" where
  \<comment> \<open>\<open>/^\s*[-*]\s/.test(line)\<close>\<close>
  "listItemLine line =
     (case dropWhile isSpace line of
        c # d # _ \<Rightarrow> isBullet c \<and> isSpace d
      | _ \<Rightarrow> False)"

definition headingLine :: "jsstring \<Rightarrow> bool" where
  \<comment> \<open>\<open>/^\s*#+\s/.test(line)\<close>\<close>
  "headingLine line =
     (let r = dropWhile isSpace line; k = length (takeWhile isHash r)
      in 1 \<le> k \<and> (case drop k r of [] \<Rightarrow> False | c # _ \<Rightarrow> isSpace c))"

text \<open>
  \<open>trimmed.match(/^(#+)\s*(.*)$/)\<close>: the number of markers (the length of group 1) and
  group 2. The greedy match takes all the markers and all the white space after them;
  it fails when there is no marker, or when what is left holds a line terminator, which
  \<open>.\<close> cannot cross on the way to the end of the string.
\<close>

definition headingMatch :: "jsstring \<Rightarrow> (nat \<times> jsstring) option" where
  "headingMatch trimmed =
     (let k = length (takeWhile isHash trimmed);
          rest = dropWhile isSpace (drop k trimmed)
      in if k = 0 \<or> list_ex isLineTerminator rest then None else Some (k, rest))"

definition startsWithHash :: "jsstring \<Rightarrow> bool" where
  \<comment> \<open>\<open>trimmed.startsWith('#')\<close>\<close>
  "startsWithHash s = (case s of [] \<Rightarrow> False | c # _ \<Rightarrow> isHash c)"

definition stripTitleMarker :: "jsstring \<Rightarrow> jsstring" where
  \<comment> \<open>\<open>trimmed.replace(/^#+\s*/, '')\<close>\<close>
  "stripTitleMarker s =
     (if startsWithHash s then dropWhile isSpace (dropWhile isHash s) else s)"

definition stripListMarker :: "jsstring \<Rightarrow> jsstring" where
  \<comment> \<open>\<open>trimmed.replace(/^[-*]\s*/, '')\<close>\<close>
  "stripListMarker s =
     (case s of [] \<Rightarrow> [] | c # cs \<Rightarrow> if isBullet c then dropWhile isSpace cs else s)"

text \<open>\<open>getIndentWidth\<close>: a space counts 1, a tab 4, anything else ends the loop.\<close>

fun indentLoop :: "jsstring \<Rightarrow> nat \<Rightarrow> nat" where
  "indentLoop [] width = width"
| "indentLoop (c # cs) width =
     (if c = 0x20 then indentLoop cs (width + 1)
      else if c = 0x09 then indentLoop cs (width + 4)
      else width)"

definition getIndentWidth :: "jsstring \<Rightarrow> nat" where
  "getIndentWidth line = indentLoop line 0"

text \<open>The two \<open>generateStableId\<close> closures.\<close>

definition headingStableId :: "jsstring \<Rightarrow> nat \<Rightarrow> nat \<Rightarrow> jsstring" where
  "headingStableId txt level index =
     js ''heading-'' @ showNat level @ js ''-'' @ showNat index @ js ''-''
     @ replaceSpaces (take 20 txt)"

definition listStableId :: "jsstring \<Rightarrow> nat \<Rightarrow> nat \<Rightarrow> jsstring" where
  "listStableId txt indent index =
     js ''list-'' @ showNat indent @ js ''-'' @ showNat index @ js ''-''
     @ replaceSpaces (take 20 txt)"

section \<open>The collapse-state store (parser.ts)\<close>

type_synonym store = "jsstring \<rightharpoonup> bool"

definition setCollapsedState :: "jsstring \<Rightarrow> bool \<Rightarrow> store \<Rightarrow> store" where
  "setCollapsedState i c m = m(i \<mapsto> c)"

definition clearCollapsedStateMap :: "store \<Rightarrow> store" where
  "clearCollapsedStateMap m = Map.empty"

definition getCollapsed :: "store \<Rightarrow> jsstring \<Rightarrow> bool" where
  \<comment> \<open>\<open>collapsedStateMap.get(nodeId) || false\<close>\<close>
  "getCollapsed m i = (case m i of Some c \<Rightarrow> c | None \<Rightarrow> False)"

section \<open>Node objects under construction\<close>

text \<open>
  The parser keeps references to node objects on a stack and mutates the objects
  (\<open>parent.children.push(newNode)\<close>, \<open>currentNode.note = ...\<close>) while the root already
  reaches them. A reference is modelled as the path of child indices that leads from
  the root object to the node: children are only ever appended, so a path denotes the
  same object for as long as it is held. A mutation through a reference is an update
  of the root's tree at that path.
\<close>

fun nodeAt :: "nat list \<Rightarrow> node \<Rightarrow> node option" where
  "nodeAt [] n = Some n"
| "nodeAt (k # p) n =
     (if k < length (children n) then nodeAt p (children n ! k) else None)"

fun modifyAt :: "nat list \<Rightarrow> (node \<Rightarrow> node) \<Rightarrow> node \<Rightarrow> node" where
  "modifyAt [] f n = f n"
| "modifyAt (k # p) f n =
     (if k < length (children n)
      then Node (nid n) (ntext n) ((children n)[k := modifyAt p f (children n ! k)])
             (collapsed n) (nnote n)
      else n)"

definition addChild :: "node \<Rightarrow> node \<Rightarrow> node" where
  "addChild newNode n = Node (nid n) (ntext n) (children n @ [newNode]) (collapsed n) (nnote n)"

definition setNote :: "jsstring \<Rightarrow> node \<Rightarrow> node" where
  "setNote txt n = Node (nid n) (ntext n) (children n) (collapsed n) (Some txt)"

definition childCount :: "nat list \<Rightarrow> node \<Rightarrow> nat" where
  "childCount p rootNode = (case nodeAt p rootNode of Some n \<Rightarrow> length (children n) | None \<Rightarrow> 0)"

text \<open>
  \<open>parent.children.push(newNode)\<close>, for the parent referenced by \<open>p\<close>: the new root
  tree and the reference to the new node.
\<close>

definition pushChild :: "nat list \<Rightarrow> node \<Rightarrow> node \<Rightarrow> node \<times> nat list" where
  "pushChild p newNode rootNode = (modifyAt p (addChild newNode) rootNode, p @ [childCount p rootNode])"

section \<open>Heading mode (parseHeadingsMode)\<close>

record hstate =
  h_root :: "node option"
  h_stack :: "(nat list \<times> nat) list"
  h_currentNode :: "nat list option"
  h_noteLines :: "jsstring list"
  h_nodeIndex :: nat

definition flushNote :: "hstate \<Rightarrow> hstate" where
  "flushNote s =
     (case (h_currentNode s, h_root s) of
        (Some p, Some rootNode) \<Rightarrow>
          if length (h_noteLines s) > 0
          then s\<lparr>h_root := Some (modifyAt p (setNote (trim (joinLines (h_noteLines s)))) rootNode),
                 h_noteLines := []\<rparr>
          else s
      | _ \<Rightarrow> s)"

text \<open>
  \<open>while (stack.length > 0 && stack[stack.length - 1].level >= level) stack.pop()\<close>;
  the top of the stack is the last element, as in the array.
\<close>

function popHeadings :: "(nat list \<times> nat) list \<Rightarrow> nat \<Rightarrow> (nat list \<times> nat) list" where
  "popHeadings stack level =
     (if length stack > 0 \<and> snd (last stack) \<ge> level
      then popHeadings (butlast stack) level else stack)"
  by pat_completeness auto
termination
  by (relation "measure (\<lambda>(stack, level). length stack)") auto

declare popHeadings.simps [simp del]

definition headingsStep :: "store \<Rightarrow> hstate \<Rightarrow> jsstring \<Rightarrow> hstate" where
  "headingsStep m s line =
     (let trimmed = trim line in
      case headingMatch trimmed of
        Some (level, group2) \<Rightarrow>
          let s1 = flushNote s;
              nodeText = trim group2;
              nodeId = headingStableId nodeText level (h_nodeIndex s1);
              s2 = s1\<lparr>h_nodeIndex := h_nodeIndex s1 + 1\<rparr>;
              newNode = Node nodeId nodeText [] (getCollapsed m nodeId) None
          in (case h_root s2 of
                None \<Rightarrow>
                  s2\<lparr>h_root := Some newNode,
                     h_stack := h_stack s2 @ [([], level)],
                     h_currentNode := Some []\<rparr>
              | Some rootNode \<Rightarrow>
                  let stack = popHeadings (h_stack s2) level;
                      parent = (if length stack > 0 then fst (last stack) else []);
                      (rootNode', newRef) = pushChild parent newNode rootNode
                  in s2\<lparr>h_root := Some rootNode',
                        h_stack := stack @ [(newRef, level)],
                        h_currentNode := Some newRef\<rparr>)
      | None \<Rightarrow>
          if trimmed \<noteq> [] then s\<lparr>h_noteLines := h_noteLines s @ [trimmed]\<rparr> else s)"

definition parseHeadingsMode :: "store \<Rightarrow> jsstring list \<Rightarrow> node option" where
  "parseHeadingsMode m lines =
     h_root (flushNote (foldl (headingsStep m)
       \<lparr>h_root = None, h_stack = [], h_currentNode = None, h_noteLines = [], h_nodeIndex = 0\<rparr>
       lines))"

section \<open>List mode (parseListMode)\<close>

text \<open>
  The first loop: the title of the root and the index at which the items start.
  \<open>findRootTitle ls i\<close> is the loop at index \<open>i\<close>, \<open>ls\<close> being the lines from there on.
\<close>

fun findRootTitle :: "jsstring list \<Rightarrow> nat \<Rightarrow> jsstring \<times> nat" where
  "findRootTitle [] i = (js ''Root'', 0)"
| "findRootTitle (l # ls) i =
     (let trimmed = trim l in
      if trimmed = [] then findRootTitle ls (i + 1)
      else if startsWithHash trimmed then (trim (stripTitleMarker trimmed), i + 1)
      else (js ''Root'', 0))"

text \<open>A stack entry \<open>{node, level, indent}\<close>.\<close>

type_synonym lentry = "nat list \<times> int \<times> int"

record lstate =
  l_root :: node
  l_stack :: "lentry list"
  l_nodeIndex :: nat

text \<open>
  \<open>while (stack.length > 1 && stack[stack.length - 1].indent >= indent) stack.pop()\<close>
\<close>

function popItems :: "lentry list \<Rightarrow> int \<Rightarrow> lentry list" where
  "popItems stack indent =
     (if length stack > 1 \<and> snd (snd (last stack)) \<ge> indent
      then popItems (butlast stack) indent else stack)"
  by pat_completeness auto
termination
  by (relation "measure (\<lambda>(stack, indent). length stack)") auto

declare popItems.simps [simp del]

definition listStep :: "store \<Rightarrow> lstate \<Rightarrow> jsstring \<Rightarrow> lstate" where
  "listStep m s line =
     (let trimmed = trim line in
      if trimmed = [] then s
      else if startsWithHash trimmed then s
      else
        let indent = getIndentWidth line;
            nodeText = trim (stripListMarker trimmed);
            nodeId = listStableId nodeText indent (l_nodeIndex s);
            newNode = Node nodeId nodeText [] (getCollapsed m nodeId) None;
            stack = popItems (l_stack s) (int indent);
            parent = fst (last stack);
            (rootNode', newRef) = pushChild parent newNode (l_root s)
        in \<lparr>l_root = rootNode',
            l_stack = stack @ [(newRef, int (length stack) - 1, int indent)],
            l_nodeIndex = l_nodeIndex s + 1\<rparr>)"

definition parseListMode :: "store \<Rightarrow> jsstring list \<Rightarrow> node option" where
  "parseListMode m lines =
     (let (rootTitle, startIndex) = findRootTitle lines 0;
          rootNode = Node (js ''root'') rootTitle [] (getCollapsed m (js ''root'')) None;
          s = foldl (listStep m)
                \<lparr>l_root = rootNode, l_stack = [([], - 1, - 1)], l_nodeIndex = 0\<rparr>
                (drop startIndex lines)
      in if length (children (l_root s)) = 1 \<and> rootTitle = js ''Root''
         then Some (children (l_root s) ! 0)
         else Some (l_root s))"

section \<open>Mode selection (parseMarkdownList)\<close>

text \<open>
  \<open>parser.ts\<close> exports the parser; \<open>MindMapRenderer\<close> holds private copies of the
  three functions with the same text, and \<open>render\<close> calls those. The store is the
  module variable \<open>collapsedStateMap\<close>, which the parser only reads: it is an argument
  of the functions below.
\<close>

definition parseMarkdownList :: "store \<Rightarrow> jsstring \<Rightarrow> node option" where
  "parseMarkdownList m txt =
     (let lines = splitLines txt in
      if length lines = 0 then None
      else
        let hasMultiLevelHeadings = list_ex multiLevelHeadingLine lines;
            hasListItems = list_ex listItemLine lines;
            hasHeadings = list_ex headingLine lines
        in if hasMultiLevelHeadings then parseHeadingsMode m lines
           else if hasHeadings \<and> \<not> hasListItems then parseHeadingsMode m lines
           else parseListMode m lines)"

section \<open>Subtree heights (renderer.ts)\<close>

text \<open>
  The body of both height functions is the same indexed loop
  \<open>for (i = 0; i < n; i++) { totalHeight += h[i]; if (i < n - 1) totalHeight += gap }\<close>
  over the heights of the children; \<open>heightLoop\<close> is that loop, started at index
  \<open>i\<close> with the running value \<open>totalHeight\<close>.
\<close>

function heightLoop :: "int \<Rightarrow> int list \<Rightarrow> nat \<Rightarrow> int \<Rightarrow> int" where
  "heightLoop gap hs i totalHeight =
     (if i < length hs
      then heightLoop gap hs (i + 1)
             (if int i < int (length hs) - 1 then totalHeight + hs ! i + gap else totalHeight + hs ! i)
      else totalHeight)"
  by pat_completeness auto
termination
  by (relation "measure (\<lambda>(gap, hs, i, totalHeight). length hs - i)") auto

declare heightLoop.simps [simp del]

fun calculateTreeHeight :: "node \<Rightarrow> int" where
  "calculateTreeHeight (Node i t cs c n) =
     (if length cs = 0 \<or> c then 24
      else heightLoop 20 (map calculateTreeHeight cs) 0 0)"

fun calculateRadialMindMapTreeHeight :: "node \<Rightarrow> int" where
  "calculateRadialMindMapTreeHeight (Node i t cs c n) =
     (if length cs = 0 \<or> c then 28
      else max 28 (heightLoop 8 (map calculateRadialMindMapTreeHeight cs) 0 0))"

section \<open>Text measurement (calculateTextWidth)\<close>

text \<open>
  JavaScript numbers are modelled as real numbers: the widths and coordinates below are
  the exact values of the expressions of the source, without the rounding of double
  precision arithmetic.

  \<open>for (const char of text)\<close> iterates code points: a high surrogate followed by a low
  surrogate is one character of two code units.
\<close>

definition isHighSurrogate :: "nat \<Rightarrow> bool" where
  "isHighSurrogate c = (0xD800 \<le> c \<and> c \<le> 0xDBFF)"

definition isLowSurrogate :: "nat \<Rightarrow> bool" where
  "isLowSurrogate c = (0xDC00 \<le> c \<and> c \<le> 0xDFFF)"

fun codePoints :: "jsstring \<Rightarrow> jsstring list" where
  "codePoints [] = []"
| "codePoints [c] = [[c]]"
| "codePoints (c # d # cs) =
     (if isHighSurrogate c \<and> isLowSurrogate d then [c, d] # codePoints cs
      else [c] # codePoints (d # cs))"

definition isCJK :: "nat \<Rightarrow> bool" where
  \<comment> \<open>the class \<open>[\u4e00-\u9fff\u3000-\u303f\uff00-\uffef]\<close>\<close>
  "isCJK c = ((0x4E00 \<le> c \<and> c \<le> 0x9FFF) \<or> (0x3000 \<le> c \<and> c \<le> 0x303F)
              \<or> (0xFF00 \<le> c \<and> c \<le> 0xFFEF))"

fun widthLoop :: "jsstring list \<Rightarrow> real \<Rightarrow> real \<Rightarrow> real" where
  "widthLoop [] fontSize totalWidth = totalWidth"
| "widthLoop (char # chars) fontSize totalWidth =
     widthLoop chars fontSize
       (if list_ex isCJK char then totalWidth + fontSize else totalWidth + fontSize * 0.55)"

definition calculateTextWidth :: "jsstring \<Rightarrow> nat \<Rightarrow> real" where
  "calculateTextWidth txt depth =
     (let fontSize = max 10 (13 - real depth)
      in widthLoop (codePoints txt) fontSize 0 + 16)"

section \<open>Rendering (renderOutlineView, renderRadialMindMap)\<close>

text \<open>
  The SVG elements the renderer creates, with the attributes that carry geometry or
  content (colours, fonts and event handlers are left out): a connector path with the
  points of its \<open>d\<close> attribute, a node background rectangle (x, y, width, height), a
  label (x, y, content), a note icon (x, y, font size) and the circle group of
  \<open>createXMindCircle\<close> (centre, radius, what the circle displays, and whether it is
  permanently visible).
\<close>

datatype indicator = ChildCount nat | Dash

datatype svg =
    Path "(real \<times> real) list"
  | Rect real real real real
  | Label real real jsstring
  | NoteIcon real real real
  | CircleGroup real real real indicator bool

record canvas =
  linesGroup :: "svg list"
  nodesGroup :: "svg list"

definition hasNote :: "node \<Rightarrow> bool" where
  \<comment> \<open>the truthiness of \<open>node.note\<close>: undefined and the empty string are false\<close>
  "hasNote n = (case nnote n of None \<Rightarrow> False | Some txt \<Rightarrow> txt \<noteq> [])"

definition createXMindCircle ::
    "real \<Rightarrow> real \<Rightarrow> real \<Rightarrow> nat \<Rightarrow> bool \<Rightarrow> canvas \<Rightarrow> canvas" where
  "createXMindCircle circleX circleY nodeRadius childCount' isCollapsed cv =
     cv\<lparr>nodesGroup := nodesGroup cv @
        [CircleGroup circleX circleY nodeRadius
           (if isCollapsed then ChildCount childCount' else Dash) isCollapsed]\<rparr>"

definition addNoteIcon :: "real \<Rightarrow> real \<Rightarrow> real \<Rightarrow> canvas \<Rightarrow> canvas" where
  "addNoteIcon x y fontSize cv =
     cv\<lparr>nodesGroup := nodesGroup cv @ [NoteIcon x (y + fontSize / 3) (fontSize - 2)]\<rparr>"

text \<open>
  The three functions that render a list of children run the same
  \<open>children.forEach\<close>. What its callback draws for one child (the connector path, the
  background and the label, the note icon and the circle) is \<open>drawChildRight\<close> for
  \<open>renderOutlineViewChildren\<close> and \<open>renderRadialMindMapChildrenRight\<close>, whose
  callbacks are the same, and \<open>drawChildLeft\<close> for
  \<open>renderRadialMindMapChildrenLeft\<close>. \<open>childCenterY\<close> is the centre the callback
  computes from \<open>currentY\<close> and \<open>childHeights[i]\<close>.
\<close>

definition drawChildRight ::
    "node \<Rightarrow> real \<Rightarrow> real \<Rightarrow> real \<Rightarrow> nat \<Rightarrow> canvas \<Rightarrow> canvas" where
  "drawChildRight child parentRight parentY childCenterY depth cv =
     (let lineStartX = parentRight;
          turnX = parentRight + 30 / 2;
          fontSize = max 10 (13 - real depth);
          textWidth = calculateTextWidth (ntext child) depth;
          noteIconWidth = (if hasNote child then 18 else 0);
          totalNodeWidth = textWidth + noteIconWidth;
          nodeHeight = fontSize + 10;
          nodeX = parentRight + 30;
          nodeRadius = 5;
          circleGap = 3;
          circleX = nodeX + totalNodeWidth + circleGap + nodeRadius;
          circleY = childCenterY;
          lineEndX = (if length (children child) > 0 then nodeX + totalNodeWidth + circleGap
                      else nodeX + totalNodeWidth);
          cv1 = cv\<lparr>linesGroup := linesGroup cv @
                  [Path [(lineStartX, parentY), (turnX, parentY), (turnX, childCenterY),
                         (lineEndX, childCenterY)]]\<rparr>;
          cv2 = cv1\<lparr>nodesGroup := nodesGroup cv1 @
                  [Rect nodeX (childCenterY - nodeHeight / 2) totalNodeWidth nodeHeight,
                   Label (nodeX + textWidth / 2) (childCenterY + fontSize / 3)
                     (ntext child)]\<rparr>;
          cv3 = (if hasNote child
                 then addNoteIcon (nodeX + textWidth + 2) childCenterY fontSize cv2
                 else cv2)
      in if length (children child) > 0
         then createXMindCircle circleX circleY nodeRadius (length (children child))
                (collapsed child) cv3
         else cv3)"

definition drawChildLeft ::
    "node \<Rightarrow> real \<Rightarrow> real \<Rightarrow> real \<Rightarrow> nat \<Rightarrow> canvas \<Rightarrow> canvas" where
  "drawChildLeft child parentLeft parentY childCenterY depth cv =
     (let lineStartX = parentLeft;
          turnX = parentLeft - 30 / 2;
          fontSize = max 10 (13 - real depth);
          textWidth = calculateTextWidth (ntext child) depth;
          noteIconWidth = (if hasNote child then 18 else 0);
          totalNodeWidth = textWidth + noteIconWidth;
          nodeHeight = fontSize + 10;
          nodeRadius = 5;
          circleGap = 3;
          nodeX = parentLeft - 30 - totalNodeWidth;
          circleX = nodeX - circleGap - nodeRadius;
          circleY = childCenterY;
          lineEndX = (if length (children child) > 0 then nodeX - circleGap else nodeX);
          cv1 = cv\<lparr>linesGroup := linesGroup cv @
                  [Path [(lineStartX, parentY), (turnX, parentY), (turnX, childCenterY),
                         (lineEndX, childCenterY)]]\<rparr>;
          cv2 = cv1\<lparr>nodesGroup := nodesGroup cv1 @
                  [Rect nodeX (childCenterY - nodeHeight / 2) totalNodeWidth nodeHeight,
                   Label (nodeX + textWidth / 2) (childCenterY + fontSize / 3)
                     (ntext child)]\<rparr>;
          cv3 = (if hasNote child
                 then addNoteIcon (nodeX + textWidth + 2) childCenterY fontSize cv2
                 else cv2)
      in if length (children child) > 0
         then createXMindCircle circleX circleY nodeRadius (length (children child))
                (collapsed child) cv3
         else cv3)"

text \<open>
  The \<open>childRight\<close> and \<open>nodeX\<close> the callback passes down as the edge from which the
  children of the child are drawn.
\<close>

definition rightNodeEdge :: "node \<Rightarrow> real \<Rightarrow> nat \<Rightarrow> real" where
  "rightNodeEdge child parentRight depth =
     (let textWidth = calculateTextWidth (ntext child) depth;
          noteIconWidth = (if hasNote child then 18 else 0);
          totalNodeWidth = textWidth + noteIconWidth;
          nodeX = parentRight + 30
      in nodeX + totalNodeWidth)"

definition leftNodeX :: "node \<Rightarrow> real \<Rightarrow> nat \<Rightarrow> real" where
  "leftNodeX child parentLeft depth =
     (let textWidth = calculateTextWidth (ntext child) depth;
          noteIconWidth = (if hasNote child then 18 else 0);
          totalNodeWidth = textWidth + noteIconWidth
      in parentLeft - 30 - totalNodeWidth)"

text \<open>
  The recursion: each function computes the heights of the children and the starting
  \<open>currentY\<close>, then runs the loop, which draws a child, renders the children of a
  child that is not collapsed, and advances \<open>currentY\<close>.
\<close>

fun renderOutlineViewChildren ::
    "node list \<Rightarrow> real \<Rightarrow> real \<Rightarrow> nat \<Rightarrow> canvas \<Rightarrow> canvas"
  and outlineForEach ::
    "node list \<Rightarrow> real \<Rightarrow> real \<Rightarrow> real \<Rightarrow> nat \<Rightarrow> canvas \<Rightarrow> canvas" where
  "renderOutlineViewChildren cs parentRight parentY depth cv =
     (let childHeights = map calculateRadialMindMapTreeHeight cs;
          totalChildrenHeight = sum_list childHeights + (int (length cs) - 1) * 8;
          currentY = parentY - real_of_int totalChildrenHeight / 2
      in outlineForEach cs currentY parentRight parentY depth cv)"
| "outlineForEach [] currentY parentRight parentY depth cv = cv"
| "outlineForEach (Node i t cs c nt # rest) currentY parentRight parentY depth cv =
     (let child = Node i t cs c nt;
          childHeight = real_of_int (calculateRadialMindMapTreeHeight child);
          childCenterY = currentY + childHeight / 2;
          cv1 = drawChildRight child parentRight parentY childCenterY depth cv;
          cv2 = (if \<not> c \<and> length cs > 0
                 then renderOutlineViewChildren cs (rightNodeEdge child parentRight depth)
                        childCenterY (depth + 1) cv1
                 else cv1)
      in outlineForEach rest (currentY + childHeight + 8) parentRight parentY depth cv2)"

definition renderOutlineView :: "node \<Rightarrow> canvas \<Rightarrow> canvas" where
  "renderOutlineView rootNode cv =
     (let startX = 50;
          totalHeight = real_of_int (calculateRadialMindMapTreeHeight rootNode);
          startY = totalHeight / 2 + 50;
          textWidth = calculateTextWidth (ntext rootNode) 0;
          noteIconWidth = (if hasNote rootNode then 20 else 0);
          totalNodeWidth = textWidth + noteIconWidth;
          nodeHeight = 24;
          cv1 = cv\<lparr>nodesGroup := nodesGroup cv @
                  [Rect startX (startY - nodeHeight / 2) totalNodeWidth nodeHeight,
                   Label (startX + textWidth / 2) (startY + 5) (ntext rootNode)]\<rparr>;
          cv2 = (if hasNote rootNode then addNoteIcon (startX + textWidth + 2) startY 14 cv1
                 else cv1)
      in if length (children rootNode) > 0
         then renderOutlineViewChildren (children rootNode) (startX + totalNodeWidth) startY 1 cv2
         else cv2)"

fun renderRadialMindMapChildrenRight ::
    "node list \<Rightarrow> real \<Rightarrow> real \<Rightarrow> nat \<Rightarrow> canvas \<Rightarrow> canvas"
  and rightForEach ::
    "node list \<Rightarrow> real \<Rightarrow> real \<Rightarrow> real \<Rightarrow> nat \<Rightarrow> canvas \<Rightarrow> canvas" where
  "renderRadialMindMapChildrenRight cs parentRight parentY depth cv =
     (let childHeights = map calculateRadialMindMapTreeHeight cs;
          totalChildrenHeight = sum_list childHeights + (int (length cs) - 1) * 8;
          currentY = parentY - real_of_int totalChildrenHeight / 2
      in rightForEach cs currentY parentRight parentY depth cv)"
| "rightForEach [] currentY parentRight parentY depth cv = cv"
| "rightForEach (Node i t cs c nt # rest) currentY parentRight parentY depth cv =
     (let child = Node i t cs c nt;
          childHeight = real_of_int (calculateRadialMindMapTreeHeight child);
          childCenterY = currentY + childHeight / 2;
          cv1 = drawChildRight child parentRight parentY childCenterY depth cv;
          cv2 = (if \<not> c \<and> length cs > 0
                 then renderRadialMindMapChildrenRight cs (rightNodeEdge child parentRight depth)
                        childCenterY (depth + 1) cv1
                 else cv1)
      in rightForEach rest (currentY + childHeight + 8) parentRight parentY depth cv2)"

fun renderRadialMindMapChildrenLeft ::
    "node list \<Rightarrow> real \<Rightarrow> real \<Rightarrow> nat \<Rightarrow> canvas \<Rightarrow> canvas"
  and leftForEach ::
    "node list \<Rightarrow> real \<Rightarrow> real \<Rightarrow> real \<Rightarrow> nat \<Rightarrow> canvas \<Rightarrow> canvas" where
  "renderRadialMindMapChildrenLeft cs parentLeft parentY depth cv =
     (let childHeights = map calculateRadialMindMapTreeHeight cs;
          totalChildrenHeight = sum_list childHeights + (int (length cs) - 1) * 8;
          currentY = parentY - real_of_int totalChildrenHeight / 2
      in leftForEach cs currentY parentLeft parentY depth cv)"
| "leftForEach [] currentY parentLeft parentY depth cv = cv"
| "leftForEach (Node i t cs c nt # rest) currentY parentLeft parentY depth cv =
     (let child = Node i t cs c nt;
          childHeight = real_of_int (calculateRadialMindMapTreeHeight child);
          childCenterY = currentY + childHeight / 2;
          cv1 = drawChildLeft child parentLeft parentY childCenterY depth cv;
          cv2 = (if \<not> c \<and> length cs > 0
                 then renderRadialMindMapChildrenLeft cs (leftNodeX child parentLeft depth)
                        childCenterY (depth + 1) cv1
                 else cv1)
      in leftForEach rest (currentY + childHeight + 8) parentLeft parentY depth cv2)"

definition renderRadialMindMap :: "node \<Rightarrow> canvas \<Rightarrow> canvas" where
  "renderRadialMindMap rootNode cv =
     (let centerX = 400;
          centerY = 300;
          textWidth = calculateTextWidth (ntext rootNode) 0;
          noteIconWidth = (if hasNote rootNode then 20 else 0);
          totalNodeWidth = textWidth + noteIconWidth;
          nodeHeight = 24;
          rootX = centerX - totalNodeWidth / 2;
          cv1 = cv\<lparr>nodesGroup := nodesGroup cv @
                  [Rect rootX (centerY - nodeHeight / 2) totalNodeWidth nodeHeight,
                   Label (rootX + textWidth / 2) (centerY + 5) (ntext rootNode)]\<rparr>;
          cv2 = (if hasNote rootNode then addNoteIcon (rootX + textWidth + 2) centerY 14 cv1
                 else cv1)
      in if length (children rootNode) > 0
         then
           let rightCount = (length (children rootNode) + 1) div 2;
               rightChildren = take rightCount (children rootNode);
               leftChildren = drop rightCount (children rootNode);
               cv3 = (if length rightChildren > 0
                      then renderRadialMindMapChildrenRight rightChildren
                             (rootX + totalNodeWidth) centerY 1 cv2
                      else cv2)
           in if length leftChildren > 0
              then renderRadialMindMapChildrenLeft leftChildren rootX centerY 1 cv3
              else cv3
         else cv2)"

text \<open>
  The \<open>switch (this.renderMode)\<close> of \<open>render\<close> and \<open>refresh\<close>, on the two fresh
  groups.
\<close>

datatype renderMode = Logic | Clockwise

definition renderTree :: "renderMode \<Rightarrow> node \<Rightarrow> canvas" where
  "renderTree mode rootNode =
     (case mode of
        Clockwise \<Rightarrow> renderRadialMindMap rootNode \<lparr>linesGroup = [], nodesGroup = []\<rparr>
      | Logic \<Rightarrow> renderOutlineView rootNode \<lparr>linesGroup = [], nodesGroup = []\<rparr>)"

section \<open>Zooming and view fitting (zoom, centerTree)\<close>

text \<open>The fields of \<open>MindMapRenderer\<close> that the two methods read and write.\<close>

record renderer =
  renderMode :: renderMode
  scale :: real
  translateX :: real
  translateY :: real

text \<open>
  \<open>zoom(factor, centerX?, centerY?)\<close>. The optional argument holds \<open>centerX\<close>,
  \<open>centerY\<close> and the left and top of \<open>svg.getBoundingClientRect()\<close>; it is absent when
  a coordinate is undefined or there is no \<open>svg\<close>.
\<close>

definition zoom ::
    "real \<Rightarrow> (real \<times> real \<times> real \<times> real) option \<Rightarrow> renderer \<Rightarrow> renderer" where
  "zoom factor center r =
     (let newScale = max 0.1 (min 5 (scale r * factor));
          r1 = (case center of
                  Some (centerX, centerY, rectLeft, rectTop) \<Rightarrow>
                    let mouseX = centerX - rectLeft;
                        mouseY = centerY - rectTop
                    in r\<lparr>translateX := mouseX - (mouseX - translateX r) * (newScale / scale r),
                         translateY := mouseY - (mouseY - translateY r) * (newScale / scale r)\<rparr>
                | None \<Rightarrow> r)
      in r1\<lparr>scale := newScale\<rparr>)"

record bbox =
  bbox_x :: real
  bbox_y :: real
  bbox_width :: real
  bbox_height :: real

text \<open>
  \<open>centerTree\<close>, given the bounding box of the drawing and the client size of the
  \<open>svg\<close> element (\<open>svg.clientWidth || 800\<close>: a width of 0 counts as 800).
\<close>

definition centerTree :: "bbox \<Rightarrow> nat \<Rightarrow> nat \<Rightarrow> renderer \<Rightarrow> renderer" where
  "centerTree b clientWidth clientHeight r =
     (let svgWidth = (if clientWidth = 0 then 800 else real clientWidth);
          svgHeight = (if clientHeight = 0 then 600 else real clientHeight);
          scaleX = min 1 ((svgWidth - 80) / bbox_width b);
          scaleY = min 1 ((svgHeight - 60) / bbox_height b);
          newScale = min (min scaleX scaleY) 1
      in r\<lparr>scale := newScale,
           translateX := 40 - bbox_x b * newScale,
           translateY := (svgHeight - bbox_height b * newScale) / 2 - bbox_y b * newScale\<rparr>)"

section \<open>The note panel width setting (MindMapSettingTab.display)\<close>

text \<open>
  \<open>parseInt(value)\<close> without a radix: leading white space is skipped, then an optional
  sign, then an optional \<open>0x\<close> or \<open>0X\<close> that selects radix 16, then the longest run
  of digits of the radix. \<open>None\<close> is NaN (no digit).
\<close>

definition digitValue :: "nat \<Rightarrow> nat \<Rightarrow> nat option" where
  "digitValue radix c =
     (let v = (if 0x30 \<le> c \<and> c \<le> 0x39 then Some (c - 0x30)
               else if 0x61 \<le> c \<and> c \<le> 0x7A then Some (c - 0x61 + 10)
               else if 0x41 \<le> c \<and> c \<le> 0x5A then Some (c - 0x41 + 10)
               else None)
      in case v of Some d \<Rightarrow> if d < radix then Some d else None | None \<Rightarrow> None)"

fun digitsValue :: "nat \<Rightarrow> jsstring \<Rightarrow> nat \<Rightarrow> nat" where
  "digitsValue radix [] acc = acc"
| "digitsValue radix (c # cs) acc =
     (case digitValue radix c of
        Some d \<Rightarrow> digitsValue radix cs (acc * radix + d)
      | None \<Rightarrow> acc)"

definition parseInt :: "jsstring \<Rightarrow> int option" where
  "parseInt str =
     (let s1 = dropWhile isSpace str;
          sign = (case s1 of c # _ \<Rightarrow> if c = 0x2D then - 1 else 1 | [] \<Rightarrow> (1::int));
          s2 = (case s1 of c # cs \<Rightarrow> if c = 0x2D \<or> c = 0x2B then cs else s1 | [] \<Rightarrow> s1);
          hex = (case s2 of c # d # _ \<Rightarrow> c = 0x30 \<and> (d = 0x78 \<or> d = 0x58) | _ \<Rightarrow> False);
          radix = (if hex then 16 else 10);
          s3 = (if hex then drop 2 s2 else s2)
      in case s3 of
           [] \<Rightarrow> None
         | c # _ \<Rightarrow>
             (case digitValue radix c of
                None \<Rightarrow> None
              | Some _ \<Rightarrow> Some (sign * int (digitsValue radix s3 0))))"

record settings =
  enableWheelZoom :: bool
  enablePinchZoom :: bool
  defaultRenderMode :: renderMode
  notePanelWidth :: int

text \<open>The \<open>onChange\<close> handler of the "Note panel width" text field.\<close>

definition notePanelWidthOnChange :: "jsstring \<Rightarrow> settings \<Rightarrow> settings" where
  "notePanelWidthOnChange val st =
     (case parseInt val of
        None \<Rightarrow> st
      | Some width \<Rightarrow>
          if width \<ge> 200 \<and> width \<le> 800 then st\<lparr>notePanelWidth := width\<rparr> else st)"

section \<open>Notions used to state the properties\<close>

text \<open>The nodes of a tree in traversal order (a node before its children).\<close>

fun nodes :: "node \<Rightarrow> node list" where
  "nodes (Node i t cs c n) = Node i t cs c n # concat (map nodes cs)"

definition treeNodes :: "node option \<Rightarrow> node list" where
  "treeNodes r = (case r of None \<Rightarrow> [] | Some n \<Rightarrow> nodes n)"

text \<open>The tree with every collapsed flag read again from a store, by id.\<close>

fun relabel :: "store \<Rightarrow> node \<Rightarrow> node" where
  "relabel m (Node i t cs c n) = Node i t (map (relabel m) cs) (getCollapsed m i) n"

text \<open>The same for the state of the two parsing loops.\<close>

definition hrelabel :: "store \<Rightarrow> hstate \<Rightarrow> hstate" where
  "hrelabel m s = s\<lparr>h_root := map_option (relabel m) (h_root s)\<rparr>"

definition lrelabel :: "store \<Rightarrow> lstate \<Rightarrow> lstate" where
  "lrelabel m s = s\<lparr>l_root := relabel m (l_root s)\<rparr>"

text \<open>
  A reference is valid when it denotes a node of the tree. The states of the two loops
  are well formed when every reference they hold is valid (and, in list mode, the
  stack is not empty).
\<close>

definition validRef :: "node \<Rightarrow> nat list \<Rightarrow> bool" where
  "validRef rootNode p = (nodeAt p rootNode \<noteq> None)"

definition hvalid :: "hstate \<Rightarrow> bool" where
  "hvalid s =
     (case h_root s of
        None \<Rightarrow> h_stack s = [] \<and> h_currentNode s = None
      | Some rootNode \<Rightarrow>
          list_all (validRef rootNode) (map fst (h_stack s))
          \<and> (case h_currentNode s of None \<Rightarrow> False | Some p \<Rightarrow> validRef rootNode p))"

definition lvalid :: "lstate \<Rightarrow> bool" where
  "lvalid s = (l_stack s \<noteq> [] \<and> list_all (validRef (l_root s)) (map fst (l_stack s)))"

text \<open>
  The words of the mode-selection rule, taken literally: the number of \<open>#\<close> markers a
  line begins with (after its indentation), and whether a white space character follows
  them.
\<close>

definition leadingMarkers :: "jsstring \<Rightarrow> nat" where
  "leadingMarkers line = length (takeWhile isHash (dropWhile isSpace line))"

definition spaceAfterMarkers :: "jsstring \<Rightarrow> bool" where
  "spaceAfterMarkers line =
     (case dropWhile isHash (dropWhile isSpace line) of [] \<Rightarrow> False | c # _ \<Rightarrow> isSpace c)"

text \<open>
  What is visible below a node that shows its children: every child, and below a child
  that is not collapsed what is visible below it. \<open>indicatorsBelow\<close> lists, in the same
  order, what the circle of each visible node with children displays.
\<close>

fun drawnBelow :: "node list \<Rightarrow> nat" where
  "drawnBelow [] = 0"
| "drawnBelow (Node i t cs c nt # rest) =
     1 + (if c then 0 else drawnBelow cs) + drawnBelow rest"

fun indicatorsBelow :: "node list \<Rightarrow> indicator list" where
  "indicatorsBelow [] = []"
| "indicatorsBelow (Node i t cs c nt # rest) =
     (if cs = [] then [] else [if c then ChildCount (length cs) else Dash])
     @ (if c then [] else indicatorsBelow cs) @ indicatorsBelow rest"

text \<open>The connector paths, node backgrounds and circles of a drawing.\<close>

definition connectorCount :: "canvas \<Rightarrow> nat" where
  "connectorCount cv = length (linesGroup cv)"

fun isRect :: "svg \<Rightarrow> bool" where
  "isRect (Rect x y w h) = True"
| "isRect e = False"

definition drawnNodeCount :: "canvas \<Rightarrow> nat" where
  "drawnNodeCount cv = length (filter isRect (nodesGroup cv))"

fun circleOf :: "svg \<Rightarrow> indicator list" where
  "circleOf (CircleGroup x y r d v) = [d]"
| "circleOf e = []"

definition indicators :: "canvas \<Rightarrow> indicator list" where
  "indicators cv = concat (map circleOf (nodesGroup cv))"

section \<open>Evaluation\<close>

text \<open>
  The definitions that the simplifier unfolds to run the parser on a concrete text.
\<close>

lemmas str_eval = js_def isSpace_def isHash_def isBullet_def isLineTerminator_def trim_def
  startsWithHash_def stripTitleMarker_def stripListMarker_def getIndentWidth_def
  headingStableId_def listStableId_def showNat.simps multiLevelHeadingLine_def listItemLine_def
  headingLine_def headingMatch_def

lemmas tree_eval = addChild_def setNote_def childCount_def pushChild_def

lemmas parse_eval = flushNote_def popHeadings.simps headingsStep_def parseHeadingsMode_def
  popItems.simps listStep_def parseListMode_def parseMarkdownList_def Let_def

text \<open>
  The two end-to-end scenarios of the specification, as a check of the embedding:
  \<open>"- A\n  - B\n  - C"\<close> and \<open>"# Title\n## Child1\nnote line\n## Child2"\<close>.
\<close>

lemma scenario_list_outline:
  "parseMarkdownList Map.empty (js ''- A'' @ [0x0A] @ js ''  - B'' @ [0x0A] @ js ''  - C'')
   = Some (Node (js ''list-0-0-A'') (js ''A'')
       [Node (js ''list-2-1-B'') (js ''B'') [] False None,
        Node (js ''list-2-2-C'') (js ''C'') [] False None] False None)"
  by (simp add: str_eval tree_eval parse_eval getCollapsed_def)

lemma scenario_headings:
  "parseMarkdownList Map.empty
     (js ''# Title'' @ [0x0A] @ js ''## Child1'' @ [0x0A] @ js ''note line'' @ [0x0A]
      @ js ''## Child2'')
   = Some (Node (js ''heading-1-0-Title'') (js ''Title'')
       [Node (js ''heading-2-1-Child1'') (js ''Child1'') [] False (Some (js ''note line'')),
        Node (js ''heading-2-2-Child2'') (js ''Child2'') [] False None] False None)"
  by (simp add: str_eval tree_eval parse_eval getCollapsed_def)

text \<open>
  Two more runs: headings whose level falls below that of the first heading are attached
  to the root (\<open>"## A\n# B\n## C\n# D"\<close>), and a tab indents by four
  (\<open>"* A\n\t* B\n  * C"\<close>).
\<close>

lemma scenario_heading_fallback:
  "parseMarkdownList Map.empty
     (js ''## A'' @ [0x0A] @ js ''# B'' @ [0x0A] @ js ''## C'' @ [0x0A] @ js ''# D'')
   = Some (Node (js ''heading-2-0-A'') (js ''A'')
       [Node (js ''heading-1-1-B'') (js ''B'')
          [Node (js ''heading-2-2-C'') (js ''C'') [] False None] False None,
        Node (js ''heading-1-3-D'') (js ''D'') [] False None] False None)"
  by (simp add: str_eval tree_eval parse_eval getCollapsed_def)

lemma scenario_tab_indent:
  "parseMarkdownList Map.empty
     (js ''* A'' @ [0x0A, 0x09] @ js ''* B'' @ [0x0A] @ js ''  * C'')
   = Some (Node (js ''list-0-0-A'') (js ''A'')
       [Node (js ''list-4-1-B'') (js ''B'') [] False None,
        Node (js ''list-2-2-C'') (js ''C'') [] False None] False None)"
  by (simp add: str_eval tree_eval parse_eval getCollapsed_def)

section \<open>The references held by the parser\<close>

text \<open>
  Every reference the parser holds on its stack, and \<open>currentNode\<close>, denotes a node of
  the tree at every step, and the stack of list mode is never empty. So a
  \<open>children.push\<close> or a note assignment through a reference always reaches a node:
  the branches of \<open>modifyAt\<close> and \<open>childCount\<close> for a path that leads nowhere, and
  \<open>last\<close> of an empty stack, are never met.
\<close>

lemma validRef_modifyAt:
  assumes "\<And>x. \<exists>ys. children (f x) = children x @ ys"
  shows "validRef r q \<Longrightarrow> validRef (modifyAt p f r) q"
proof (induction q arbitrary: p r)
  case Nil
  then show ?case by (simp add: validRef_def)
next
  case (Cons k q)
  from Cons.prems have k: "k < length (children r)" and v: "validRef (children r ! k) q"
    by (auto simp: validRef_def split: if_splits)
  show ?case
  proof (cases p)
    case Nil
    from assms [of r] obtain ys where ys: "children (f r) = children r @ ys" by blast
    with k v Nil show ?thesis by (simp add: validRef_def nth_append)
  next
    case (Cons j p')
    show ?thesis
    proof (cases "j < length (children r)")
      case True
      with k v Cons Cons.IH [of "children r ! k" p'] show ?thesis
        by (cases "k = j") (simp_all add: validRef_def)
    next
      case False
      with Cons Cons.prems show ?thesis by simp
    qed
  qed
qed

lemma addChild_extends: "\<exists>ys. children (addChild new x) = children x @ ys"
  by (simp add: addChild_def)

lemma setNote_extends: "\<exists>ys. children (setNote t x) = children x @ ys"
  by (simp add: setNote_def)

lemma new_ref_valid:
  "validRef r p \<Longrightarrow> validRef (modifyAt p (addChild new) r) (p @ [childCount p r])"
proof (induction p arbitrary: r)
  case Nil
  then show ?case by (simp add: validRef_def childCount_def addChild_def)
next
  case (Cons k p)
  from Cons.prems have k: "k < length (children r)" and v: "validRef (children r ! k) p"
    by (auto simp: validRef_def split: if_splits)
  from Cons.IH [OF v] k show ?case
    by (simp add: validRef_def childCount_def)
qed

lemma pushChild_valid:
  assumes "validRef r p"
  shows "validRef (fst (pushChild p new r)) (snd (pushChild p new r))"
    and "validRef r q \<Longrightarrow> validRef (fst (pushChild p new r)) q"
  using assms by (simp_all add: pushChild_def new_ref_valid validRef_modifyAt addChild_extends)

lemma popHeadings_prefix: "\<exists>zs. stack = popHeadings stack level @ zs"
proof (induction stack level rule: popHeadings.induct)
  case (1 stack level)
  show ?case
  proof (cases "length stack > 0 \<and> snd (last stack) \<ge> level")
    case True
    with 1 obtain zs where "butlast stack = popHeadings (butlast stack) level @ zs" by blast
    moreover from True have "stack = butlast stack @ [last stack]" by simp
    ultimately have "stack = popHeadings (butlast stack) level @ zs @ [last stack]"
      by (metis append_assoc)
    moreover have "popHeadings stack level = popHeadings (butlast stack) level"
      using True by (subst popHeadings.simps) simp
    ultimately show ?thesis by metis
  next
    case False
    then show ?thesis by (subst popHeadings.simps) auto
  qed
qed

lemma popItems_prefix: "\<exists>zs. stack = popItems stack indent @ zs"
proof (induction stack indent rule: popItems.induct)
  case (1 stack indent)
  show ?case
  proof (cases "length stack > 1 \<and> snd (snd (last stack)) \<ge> indent")
    case True
    with 1 obtain zs where "butlast stack = popItems (butlast stack) indent @ zs" by blast
    moreover from True have "stack = butlast stack @ [last stack]"
      by (cases stack) simp_all
    ultimately have "stack = popItems (butlast stack) indent @ zs @ [last stack]"
      by (metis append_assoc)
    moreover have "popItems stack indent = popItems (butlast stack) indent"
      using True by (subst popItems.simps) simp
    ultimately show ?thesis by metis
  next
    case False
    then show ?thesis by (subst popItems.simps) auto
  qed
qed

lemma popItems_nonempty: "stack \<noteq> [] \<Longrightarrow> popItems stack indent \<noteq> []"
proof (induction stack indent rule: popItems.induct)
  case (1 stack indent)
  show ?case
  proof (cases "length stack > 1 \<and> snd (snd (last stack)) \<ge> indent")
    case True
    then have "butlast stack \<noteq> []" by (cases stack) auto
    with 1 True show ?thesis by (subst popItems.simps) simp
  next
    case False
    with 1 show ?thesis by (subst popItems.simps) auto
  qed
qed

lemma list_all_prefix: "stack = xs @ zs \<Longrightarrow> list_all P (map fst stack) \<Longrightarrow> list_all P (map fst xs)"
  by auto


lemma flushNote_valid: "hvalid s \<Longrightarrow> hvalid (flushNote s)"
  by (auto simp: hvalid_def flushNote_def validRef_modifyAt setNote_extends list_all_iff
      split: option.splits)

lemma flushNote_keeps:
  "h_stack (flushNote s) = h_stack s" "h_currentNode (flushNote s) = h_currentNode s"
  "h_nodeIndex (flushNote s) = h_nodeIndex s"
  "(h_root (flushNote s) = None) = (h_root s = None)"
  by (auto simp: flushNote_def split: option.splits)

lemma headingsStep_valid: "hvalid s \<Longrightarrow> hvalid (headingsStep m s line)"
proof (cases "headingMatch (trim line)")
  case None
  assume "hvalid s"
  with None show ?thesis
    by (auto simp: headingsStep_def hvalid_def Let_def split: option.splits)
next
  case (Some a)
  assume v: "hvalid s"
  obtain level g where a: "a = (level, g)" by (cases a)
  from v have fv: "hvalid (flushNote s)" by (rule flushNote_valid)
  show ?thesis
  proof (cases "h_root (flushNote s)")
    case None
    with fv have "h_stack (flushNote s) = []" by (simp add: hvalid_def)
    with None Some a show ?thesis
      by (simp add: headingsStep_def Let_def hvalid_def validRef_def)
  next
    case (Some r)
    let ?stack = "popHeadings (h_stack (flushNote s)) level"
    let ?parent = "if length ?stack > 0 then fst (last ?stack) else []"
    from fv Some have all: "list_all (validRef r) (map fst (h_stack (flushNote s)))"
      by (simp add: hvalid_def)
    from popHeadings_prefix [of "h_stack (flushNote s)" level] all
    have pv: "list_all (validRef r) (map fst ?stack)"
      by (metis list_all_prefix)
    have parent: "validRef r ?parent"
    proof (cases "length ?stack > 0")
      case True
      then have "last ?stack \<in> set ?stack" by simp
      with pv True show ?thesis by (auto simp: list_all_iff)
    next
      case False
      then show ?thesis by (simp add: validRef_def)
    qed
    from pv have pv': "list_all (validRef (fst (pushChild ?parent new r))) (map fst ?stack)" for new
      using pushChild_valid(2) [OF parent] by (auto simp: list_all_iff)
    have step: "headingsStep m s line =
        (flushNote s)\<lparr>h_nodeIndex := h_nodeIndex (flushNote s) + 1,
          h_root := Some (fst (pushChild ?parent
            (Node (headingStableId (trim g) level (h_nodeIndex (flushNote s))) (trim g) []
               (getCollapsed m (headingStableId (trim g) level (h_nodeIndex (flushNote s))))
               None) r)),
          h_stack := ?stack @ [(snd (pushChild ?parent
            (Node (headingStableId (trim g) level (h_nodeIndex (flushNote s))) (trim g) []
               (getCollapsed m (headingStableId (trim g) level (h_nodeIndex (flushNote s))))
               None) r), level)],
          h_currentNode := Some (snd (pushChild ?parent
            (Node (headingStableId (trim g) level (h_nodeIndex (flushNote s))) (trim g) []
               (getCollapsed m (headingStableId (trim g) level (h_nodeIndex (flushNote s))))
               None) r))\<rparr>"
      using \<open>headingMatch (trim line) = Some a\<close> a Some
      by (simp add: headingsStep_def Let_def split_beta)
    show ?thesis
      unfolding step hvalid_def using pv' pushChild_valid(1) [OF parent]
      by simp
  
  qed
qed

lemma listStep_valid: "lvalid s \<Longrightarrow> lvalid (listStep m s line)"
proof (cases "trim line = [] \<or> startsWithHash (trim line)")
  case True
  assume "lvalid s"
  with True show ?thesis by (auto simp: listStep_def Let_def)
next
  case False
  assume v: "lvalid s"
  let ?stack = "popItems (l_stack s) (int (getIndentWidth line))"
  from v have ne: "?stack \<noteq> []" by (simp add: lvalid_def popItems_nonempty)
  from v popItems_prefix [of "l_stack s" "int (getIndentWidth line)"]
  have pv: "list_all (validRef (l_root s)) (map fst ?stack)"
    unfolding lvalid_def by (metis list_all_prefix)
  from ne have "last ?stack \<in> set ?stack" by simp
  with pv have parent: "validRef (l_root s) (fst (last ?stack))"
    by (auto simp: list_all_iff)
  from pv have pv': "list_all (validRef (fst (pushChild (fst (last ?stack)) new (l_root s))))
      (map fst ?stack)" for new
    using pushChild_valid(2) [OF parent] by (auto simp: list_all_iff)
  from False pv' pushChild_valid(1) [OF parent] show ?thesis
    by (simp add: listStep_def Let_def lvalid_def split_beta)
qed

lemma parser_references_valid:
  "hvalid (foldl (headingsStep m)
     \<lparr>h_root = None, h_stack = [], h_currentNode = None, h_noteLines = [], h_nodeIndex = 0\<rparr> ls)"
  "lvalid (foldl (listStep m)
     \<lparr>l_root = rootNode, l_stack = [([], - 1, - 1)], l_nodeIndex = 0\<rparr> ls)"
proof -
  have h: "hvalid s \<Longrightarrow> hvalid (foldl (headingsStep m) s ls)" for s
    by (induction ls arbitrary: s) (simp_all add: headingsStep_valid)
  have l: "lvalid s \<Longrightarrow> lvalid (foldl (listStep m) s ls)" for s
    by (induction ls arbitrary: s) (simp_all add: listStep_valid)
  show "hvalid (foldl (headingsStep m)
     \<lparr>h_root = None, h_stack = [], h_currentNode = None, h_noteLines = [], h_nodeIndex = 0\<rparr> ls)"
    by (rule h) (simp add: hvalid_def)
  show "lvalid (foldl (listStep m)
     \<lparr>l_root = rootNode, l_stack = [([], - 1, - 1)], l_nodeIndex = 0\<rparr> ls)"
    by (rule l) (simp add: lvalid_def validRef_def)
qed

section \<open>The parse result as a function of the store\<close>

text \<open>
  The parser reads the store only to set the collapsed flag of a node it creates, from
  the id of the node. So the tree parsed under a store \<open>m'\<close> is the tree parsed under
  any store \<open>m\<close> with the flags read again from \<open>m'\<close>: shape, ids, texts and notes do
  not depend on the store. The lemmas follow the parser: the updates of the tree, one
  step of each loop, the loops, the two modes and the mode selection.
\<close>

lemma relabel_sel [simp]:
  "nid (relabel m n) = nid n" "ntext (relabel m n) = ntext n" "nnote (relabel m n) = nnote n"
  "children (relabel m n) = map (relabel m) (children n)"
  "collapsed (relabel m n) = getCollapsed m (nid n)"
  by (cases n; simp)+

lemma relabel_modifyAt:
  "(\<And>x. relabel m (f x) = g (relabel m x)) \<Longrightarrow>
   relabel m (modifyAt p f n) = modifyAt p g (relabel m n)"
proof (induction p arbitrary: n)
  case Nil
  then show ?case by simp
next
  case (Cons k p)
  show ?case
  proof (cases "k < length (children n)")
    case True
    with Cons show ?thesis by (simp add: map_update)
  next
    case False
    then show ?thesis by simp
  qed
qed

lemma nodeAt_relabel: "nodeAt p (relabel m n) = map_option (relabel m) (nodeAt p n)"
  by (induction p arbitrary: n) auto

lemma childCount_relabel [simp]: "childCount p (relabel m n) = childCount p n"
  by (simp add: childCount_def nodeAt_relabel split: option.splits)

lemma relabel_addChild: "relabel m (addChild new x) = addChild (relabel m new) (relabel m x)"
  by (simp add: addChild_def)

lemma relabel_setNote: "relabel m (setNote t x) = setNote t (relabel m x)"
  by (simp add: setNote_def)

lemma pushChild_relabel:
  "pushChild p (Node i t [] (getCollapsed m' i) None) (relabel m' r) =
     (relabel m' (fst (pushChild p (Node i t [] (getCollapsed m i) None) r)),
      snd (pushChild p (Node i t [] (getCollapsed m i) None) r))"
proof -
  have "relabel m' (addChild (Node i t [] (getCollapsed m i) None) x)
        = addChild (Node i t [] (getCollapsed m' i) None) (relabel m' x)" for x
    by (simp add: addChild_def)
  then show ?thesis
    by (simp add: pushChild_def relabel_modifyAt)
qed

lemma flushNote_relabel: "flushNote (hrelabel m s) = hrelabel m (flushNote s)"
  by (auto simp: flushNote_def hrelabel_def relabel_modifyAt [where g = "setNote t" for t] relabel_setNote
      split: option.splits)

lemma hrelabel_sel [simp]:
  "h_root (hrelabel m s) = map_option (relabel m) (h_root s)"
  "h_stack (hrelabel m s) = h_stack s"
  "h_currentNode (hrelabel m s) = h_currentNode s"
  "h_noteLines (hrelabel m s) = h_noteLines s"
  "h_nodeIndex (hrelabel m s) = h_nodeIndex s"
  "hstate.more (hrelabel m s) = hstate.more s"
  by (simp_all add: hrelabel_def)

lemma headingsStep_relabel:
  "headingsStep m' (hrelabel m' s) line = hrelabel m' (headingsStep m s line)"
proof (cases "headingMatch (trim line)")
  case None
  then show ?thesis
    by (intro hstate.equality) (simp_all add: headingsStep_def Let_def)
next
  case (Some a)
  obtain level g where a: "a = (level, g)" by (cases a)
  show ?thesis
  proof (cases "h_root (flushNote s)")
    case None
    with Some a show ?thesis
      by (intro hstate.equality) (simp_all add: headingsStep_def Let_def flushNote_relabel)
  next
    case (Some r)
    with \<open>headingMatch (trim line) = Some a\<close> a show ?thesis
      by (intro hstate.equality)
        (simp_all add: headingsStep_def Let_def flushNote_relabel split_beta
          pushChild_relabel [where m = m])
  qed
qed


lemma foldl_headingsStep_relabel:
  "foldl (headingsStep m') (hrelabel m' s) ls = hrelabel m' (foldl (headingsStep m) s ls)"
  by (induction ls arbitrary: s) (simp_all add: headingsStep_relabel [where m = m])

lemma parseHeadingsMode_relabel:
  "parseHeadingsMode m' ls = map_option (relabel m') (parseHeadingsMode m ls)"
proof -
  let ?init = "\<lparr>h_root = None, h_stack = [], h_currentNode = None, h_noteLines = [], h_nodeIndex = 0\<rparr>"
  have i: "hrelabel m' ?init = ?init" by (simp add: hrelabel_def)
  have "flushNote (foldl (headingsStep m') ?init ls) = hrelabel m' (flushNote (foldl (headingsStep m) ?init ls))"
    using foldl_headingsStep_relabel [of m' ?init ls m] by (simp only: i flushNote_relabel)
  then show ?thesis by (simp add: parseHeadingsMode_def)
qed

lemma lrelabel_sel [simp]:
  "l_root (lrelabel m s) = relabel m (l_root s)"
  "l_stack (lrelabel m s) = l_stack s"
  "l_nodeIndex (lrelabel m s) = l_nodeIndex s"
  "lstate.more (lrelabel m s) = lstate.more s"
  by (simp_all add: lrelabel_def)

lemma listStep_relabel:
  "listStep m' (lrelabel m' s) line = lrelabel m' (listStep m s line)"
proof (cases "trim line = [] \<or> startsWithHash (trim line)")
  case True
  then show ?thesis by (auto simp: listStep_def Let_def)
next
  case False
  then show ?thesis
    by (intro lstate.equality)
      (simp_all add: listStep_def Let_def split_beta pushChild_relabel [where m = m])
qed

lemma foldl_listStep_relabel:
  "foldl (listStep m') (lrelabel m' s) ls = lrelabel m' (foldl (listStep m) s ls)"
  by (induction ls arbitrary: s) (simp_all add: listStep_relabel [where m = m])

lemma parseListMode_relabel:
  "parseListMode m' ls = map_option (relabel m') (parseListMode m ls)"
proof -
  obtain rootTitle startIndex where f: "findRootTitle ls 0 = (rootTitle, startIndex)"
    by (cases "findRootTitle ls 0")
  define init where "init = (\<lambda>m. \<lparr>l_root = Node (js ''root'') rootTitle [] (getCollapsed m (js ''root'')) None,
    l_stack = [([], - 1, - 1)], l_nodeIndex = 0\<rparr>)"
  define final where "final = (\<lambda>m. foldl (listStep m) (init m) (drop startIndex ls))"
  have i: "lrelabel m' (init m) = init m'" by (simp add: lrelabel_def init_def)
  have e: "final m' = lrelabel m' (final m)"
    unfolding final_def
    using foldl_listStep_relabel [of m' "init m" "drop startIndex ls" m] by (simp only: i)
  have p: "parseListMode k ls =
      (if length (children (l_root (final k))) = 1 \<and> rootTitle = js ''Root''
       then Some (children (l_root (final k)) ! 0) else Some (l_root (final k)))" for k
    unfolding parseListMode_def f Let_def prod.case final_def init_def by (rule refl)
  show ?thesis
    by (simp add: p [of m] p [of m'] e)
qed

lemma parseMarkdownList_relabel:
  "parseMarkdownList m' src = map_option (relabel m') (parseMarkdownList m src)"
  by (simp add: parseMarkdownList_def Let_def parseHeadingsMode_relabel [of m' _ m]
      parseListMode_relabel [of m' _ m])

lemma nodes_relabel: "nodes (relabel m n) = map (relabel m) (nodes n)"
  by (induction n) (simp add: map_concat comp_def cong: map_cong)

lemma treeNodes_relabel:
  "treeNodes (map_option (relabel m) r) = map (relabel m) (treeNodes r)"
  by (cases r) (simp_all add: treeNodes_def nodes_relabel)


lemma relabel_same_ids: "map nid (map (relabel m) ns) = map nid ns"
  by (simp add: comp_def)

lemma relabel_flags: "map collapsed (map (relabel m) ns) = map (getCollapsed m) (map nid ns)"
  by (simp add: comp_def)

section \<open>Empty and blank input\<close>

lemma splitLines_nonempty: "splitLines src \<noteq> []"
  by (induction src) (auto split: list.splits)

lemma splitLines_blank: "list_all isSpace src \<Longrightarrow> list_all (list_all isSpace) (splitLines src)"
  by (induction src) (auto split: list.splits)

lemma dropWhile_blank: "list_all isSpace l \<Longrightarrow> dropWhile isSpace l = []"
  by (simp add: list_all_iff)

lemma trim_blank: "list_all isSpace l \<Longrightarrow> trim l = []"
  by (simp add: trim_def dropWhile_blank)

lemma blank_line_tests:
  "list_all isSpace l \<Longrightarrow> \<not> multiLevelHeadingLine l \<and> \<not> headingLine l \<and> \<not> listItemLine l"
  by (simp add: multiLevelHeadingLine_def headingLine_def listItemLine_def dropWhile_blank)

lemma no_blank_line_passes:
  "list_all (list_all isSpace) ls \<Longrightarrow>
     \<not> list_ex multiLevelHeadingLine ls \<and> \<not> list_ex headingLine ls \<and> \<not> list_ex listItemLine ls"
  by (induction ls) (simp_all add: blank_line_tests)

lemma findRootTitle_blank:
  "list_all (list_all isSpace) ls \<Longrightarrow> findRootTitle ls i = (js ''Root'', 0)"
  by (induction ls arbitrary: i) (simp_all add: trim_blank)

lemma foldl_listStep_blank:
  "list_all (list_all isSpace) ls \<Longrightarrow> foldl (listStep m) s ls = s"
  by (induction ls arbitrary: s) (simp_all add: listStep_def trim_blank)

text \<open>
  C1. The claim is that \<open>parseMarkdownList\<close> returns null for every text that is empty
  or consists of white space only. The code does not: \<open>split\<close> never returns an empty
  array, so the guard \<open>lines.length === 0\<close> never fires; no line is a heading or an
  item, list mode runs, and the result is the synthetic root, titled \<open>Root\<close>, without
  children.
\<close>

theorem blank_input_yields_root_node:
  assumes "list_all isSpace src"
  shows "parseMarkdownList m src
         = Some (Node (js ''root'') (js ''Root'') [] (getCollapsed m (js ''root'')) None)"
proof -
  let ?ls = "splitLines src"
  have b: "list_all (list_all isSpace) ?ls" using assms by (rule splitLines_blank)
  have "parseListMode m ?ls
        = Some (Node (js ''root'') (js ''Root'') [] (getCollapsed m (js ''root'')) None)"
    by (simp add: parseListMode_def findRootTitle_blank [OF b] foldl_listStep_blank [OF b])
  with no_blank_line_passes [OF b] splitLines_nonempty [of src] show ?thesis
    by (simp add: parseMarkdownList_def Let_def)
qed

text \<open>The empty text, and the text of two spaces, a line feed and a tab.\<close>

theorem blank_input_witness:
  "list_all isSpace (js ''  '' @ [0x0A, 0x09])
   \<and> parseMarkdownList Map.empty (js ''  '' @ [0x0A, 0x09])
       = Some (Node (js ''root'') (js ''Root'') [] False None)
   \<and> parseMarkdownList Map.empty []
       = Some (Node (js ''root'') (js ''Root'') [] False None)"
proof -
  have h: "list_all isSpace (js ''  '' @ [0x0A, 0x09])"
    by (simp add: js_def isSpace_def)
  have e: "list_all isSpace []" by simp
  from h blank_input_yields_root_node [OF h, of Map.empty]
    blank_input_yields_root_node [OF e, of Map.empty]
  show ?thesis by (simp add: getCollapsed_def)
qed

section \<open>Parsing again\<close>

text \<open>
  C2. Parsing the same text twice gives the same sequence of ids and the same collapsed
  flags, in traversal order, when the store is unchanged between the two calls. The
  counter \<open>nodeIndex\<close> is a local variable of each call and the calls do not write the
  store, so the second call reads a store \<open>m'\<close> equal to the store \<open>m\<close> of the first.
  The statement asks less of \<open>m'\<close>: that it gives the ids of the first tree the flags
  \<open>m\<close> gives them.
\<close>

theorem parse_twice_same_ids_and_flags:
  assumes "\<forall>i \<in> set (map nid (treeNodes (parseMarkdownList m src))).
             getCollapsed m' i = getCollapsed m i"
  shows "map nid (treeNodes (parseMarkdownList m' src))
           = map nid (treeNodes (parseMarkdownList m src))
         \<and> map collapsed (treeNodes (parseMarkdownList m' src))
           = map collapsed (treeNodes (parseMarkdownList m src))"
proof -
  let ?t = "treeNodes (parseMarkdownList m src)"
  have a: "treeNodes (parseMarkdownList m' src) = map (relabel m') ?t"
    by (subst parseMarkdownList_relabel [of m' src m]) (rule treeNodes_relabel)
  have b: "?t = map (relabel m) ?t"
    by (subst parseMarkdownList_relabel [of m src m]) (rule treeNodes_relabel)
  have "map collapsed (map (relabel m') ?t) = map (getCollapsed m') (map nid ?t)"
    by (rule relabel_flags)
  also have "\<dots> = map (getCollapsed m) (map nid ?t)"
    using assms by (intro map_cong) auto
  also have "\<dots> = map collapsed (map (relabel m) ?t)"
    by (rule relabel_flags [symmetric])
  also have "\<dots> = map collapsed ?t"
    by (subst (2) b) (rule refl)
  finally show ?thesis
    by (simp add: a relabel_same_ids)
qed

text \<open>
  The outline \<open>"- A\n  - B"\<close>, parsed with node A collapsed in the store, and parsed
  again after an entry for an id that is not in the tree was added.
\<close>

theorem parse_twice_witness:
  "map nid (treeNodes (parseMarkdownList [js ''list-0-0-A'' \<mapsto> True, js ''other'' \<mapsto> True]
       (js ''- A'' @ [0x0A] @ js ''  - B'')))
     = map nid (treeNodes (parseMarkdownList [js ''list-0-0-A'' \<mapsto> True]
       (js ''- A'' @ [0x0A] @ js ''  - B'')))
   \<and> map collapsed (treeNodes (parseMarkdownList
       [js ''list-0-0-A'' \<mapsto> True, js ''other'' \<mapsto> True]
       (js ''- A'' @ [0x0A] @ js ''  - B'')))
     = map collapsed (treeNodes (parseMarkdownList [js ''list-0-0-A'' \<mapsto> True]
       (js ''- A'' @ [0x0A] @ js ''  - B'')))"
proof -
  let ?m = "[js ''list-0-0-A'' \<mapsto> True]"
  let ?m' = "[js ''list-0-0-A'' \<mapsto> True, js ''other'' \<mapsto> True]"
  let ?src = "js ''- A'' @ [0x0A] @ js ''  - B''"
  have first: "parseMarkdownList ?m ?src
      = Some (Node (js ''list-0-0-A'') (js ''A'')
          [Node (js ''list-2-1-B'') (js ''B'') [] False None] True None)"
    by (simp add: str_eval tree_eval parse_eval getCollapsed_def)
  have h: "\<forall>i \<in> set (map nid (treeNodes (parseMarkdownList ?m ?src))).
             getCollapsed ?m' i = getCollapsed ?m i"
    by (subst first) (simp add: treeNodes_def getCollapsed_def js_def)
  show ?thesis
    by (rule parse_twice_same_ids_and_flags [OF h])
qed

section \<open>Toggling and parsing again\<close>

text \<open>
  C3. Let \<open>n\<close> be a node with at least one child in the tree parsed from a text under
  the store \<open>m\<close>. After \<open>setCollapsedState(n.id, b)\<close>, parsing the same text gives a
  tree that holds a node with the id of \<open>n\<close> whose collapsed flag is \<open>b\<close>.
\<close>

theorem toggle_survives_reparse:
  assumes "n \<in> set (treeNodes (parseMarkdownList m src))" and "children n \<noteq> []"
  shows "\<exists>n' \<in> set (treeNodes (parseMarkdownList (setCollapsedState (nid n) b m) src)).
           nid n' = nid n \<and> collapsed n' = b"
proof -
  let ?m' = "setCollapsedState (nid n) b m"
  have "treeNodes (parseMarkdownList ?m' src)
        = map (relabel ?m') (treeNodes (parseMarkdownList m src))"
    by (subst parseMarkdownList_relabel [of ?m' src m]) (rule treeNodes_relabel)
  with assms(1) have "relabel ?m' n \<in> set (treeNodes (parseMarkdownList ?m' src))"
    by simp
  moreover have "nid (relabel ?m' n) = nid n \<and> collapsed (relabel ?m' n) = b"
    by (simp add: setCollapsedState_def getCollapsed_def)
  ultimately show ?thesis by blast
qed

text \<open>Node A of the outline \<open>"- A\n  - B"\<close>, collapsed and parsed again.\<close>

theorem toggle_survives_reparse_witness:
  "\<exists>n' \<in> set (treeNodes (parseMarkdownList
        (setCollapsedState (js ''list-0-0-A'') True Map.empty)
        (js ''- A'' @ [0x0A] @ js ''  - B''))).
     nid n' = js ''list-0-0-A'' \<and> collapsed n' = True"
proof -
  let ?n = "Node (js ''list-0-0-A'') (js ''A'')
              [Node (js ''list-2-1-B'') (js ''B'') [] False None] False None"
  have p: "parseMarkdownList Map.empty (js ''- A'' @ [0x0A] @ js ''  - B'') = Some ?n"
    by (simp add: str_eval tree_eval parse_eval getCollapsed_def)
  have h1: "?n \<in> set (treeNodes (parseMarkdownList Map.empty (js ''- A'' @ [0x0A] @ js ''  - B'')))"
    by (subst p) (simp add: treeNodes_def)
  have h2: "children ?n \<noteq> []" by simp
  from toggle_survives_reparse [OF h1 h2, of True] show ?thesis by simp
qed

section \<open>Root elision in list mode\<close>

text \<open>
  What the final test of \<open>parseListMode\<close> amounts to. The first loop returns the start
  index 0 exactly when it found no title line, and then the title is the default; so
  the single item replaces the root when the root has one child and either no title
  line was found or the title found is the word \<open>Root\<close>.
\<close>

lemma findRootTitle_no_title:
  "snd (findRootTitle ls i) = 0 \<Longrightarrow> fst (findRootTitle ls i) = js ''Root''"
  by (induction ls arbitrary: i) (auto simp: Let_def split: if_splits)

lemma list_mode_elision_rule:
  "parseListMode m ls =
     (let (rootTitle, startIndex) = findRootTitle ls 0;
          s = foldl (listStep m)
                \<lparr>l_root = Node (js ''root'') rootTitle [] (getCollapsed m (js ''root'')) None,
                 l_stack = [([], - 1, - 1)], l_nodeIndex = 0\<rparr>
                (drop startIndex ls)
      in if length (children (l_root s)) = 1 \<and> (startIndex = 0 \<or> rootTitle = js ''Root'')
         then Some (children (l_root s) ! 0)
         else Some (l_root s))"
proof -
  obtain rootTitle startIndex where f: "findRootTitle ls 0 = (rootTitle, startIndex)"
    by (cases "findRootTitle ls 0")
  from findRootTitle_no_title [of ls 0] f
  have "(startIndex = 0 \<or> rootTitle = js ''Root'') = (rootTitle = js ''Root'')"
    by auto
  then show ?thesis
    unfolding parseListMode_def f Let_def prod.case by (simp only:)
qed

text \<open>
  C4. The claim is that list mode returns the single top-level item in place of the
  synthetic root exactly when the root has one child and no \<open>#\<close> title line was found,
  so that an outline with a title line keeps its root. The code decides "no title line
  was found" by comparing the title with the default \<open>Root\<close>: an outline whose title
  line reads \<open># Root\<close> loses its root, while the same outline titled \<open># Title\<close> keeps
  it.
\<close>

theorem root_titled_outline_loses_its_root:
  "parseMarkdownList m (js ''# Root'' @ [0x0A] @ js ''- A'')
     = Some (Node (js ''list-0-0-A'') (js ''A'') [] (getCollapsed m (js ''list-0-0-A'')) None)
   \<and> parseMarkdownList m (js ''# Title'' @ [0x0A] @ js ''- A'')
     = Some (Node (js ''root'') (js ''Title'')
         [Node (js ''list-0-0-A'') (js ''A'') [] (getCollapsed m (js ''list-0-0-A'')) None]
         (getCollapsed m (js ''root'')) None)"
  by (simp add: str_eval tree_eval parse_eval)

section \<open>Mode selection\<close>

text \<open>
  C5, as stated, fails: the line \<open>##Title\<close> begins with two \<open>#\<close> markers, yet the
  text is parsed in list mode, and the result differs from that of heading mode.
\<close>

theorem mode_selection_counterexample:
  "list_ex (\<lambda>line. 2 \<le> leadingMarkers line) (splitLines (js ''##Title''))
   \<and> parseMarkdownList Map.empty (js ''##Title'')
       = parseListMode Map.empty (splitLines (js ''##Title''))
   \<and> parseMarkdownList Map.empty (js ''##Title'')
       \<noteq> parseHeadingsMode Map.empty (splitLines (js ''##Title''))"
  by (simp add: str_eval tree_eval parse_eval leadingMarkers_def getCollapsed_def)

lemma multiLevelHeadingLine_iff:
  "multiLevelHeadingLine line = (2 \<le> leadingMarkers line \<and> spaceAfterMarkers line)"
  by (simp add: multiLevelHeadingLine_def leadingMarkers_def spaceAfterMarkers_def Let_def
      dropWhile_eq_drop)

lemma headingLine_iff:
  "headingLine line = (1 \<le> leadingMarkers line \<and> spaceAfterMarkers line)"
  by (simp add: headingLine_def leadingMarkers_def spaceAfterMarkers_def Let_def
      dropWhile_eq_drop)

text \<open>
  C5, amended. The markers count only when a white space character follows them. The
  first applicable rule wins: heading mode if some line begins with two or more \<open>#\<close>
  markers followed by white space (whether or not there are list items); otherwise
  heading mode if some line begins with one or more markers followed by white space and
  no line begins with \<open>-\<close> or \<open>*\<close> followed by white space; otherwise list mode.
\<close>

theorem mode_selection:
  "parseMarkdownList m src =
     (let lines = splitLines src in
      if list_ex (\<lambda>line. 2 \<le> leadingMarkers line \<and> spaceAfterMarkers line) lines
      then parseHeadingsMode m lines
      else if list_ex (\<lambda>line. 1 \<le> leadingMarkers line \<and> spaceAfterMarkers line) lines
              \<and> \<not> list_ex listItemLine lines
      then parseHeadingsMode m lines
      else parseListMode m lines)"
proof -
  have a: "multiLevelHeadingLine = (\<lambda>line. 2 \<le> leadingMarkers line \<and> spaceAfterMarkers line)"
    by (rule ext) (rule multiLevelHeadingLine_iff)
  have b: "headingLine = (\<lambda>line. 1 \<le> leadingMarkers line \<and> spaceAfterMarkers line)"
    by (rule ext) (rule headingLine_iff)
  show ?thesis
    unfolding parseMarkdownList_def Let_def a b
    using splitLines_nonempty [of src] by simp
qed

section \<open>Properties of the subtree heights\<close>

lemma heightLoop_sum:
  "i < length hs \<Longrightarrow>
   heightLoop gap hs i totalHeight =
     totalHeight + sum_list (drop i hs) + (int (length hs) - 1 - int i) * gap"
proof (induction gap hs i totalHeight rule: heightLoop.induct)
  case (1 gap hs i totalHeight)
  show ?case
  proof (cases "i + 1 < length hs")
    case True
    have d: "drop i hs = hs ! i # drop (i + 1) hs"
      using "1.prems" by (simp add: Cons_nth_drop_Suc)
    from True "1.prems" "1.IH" [OF "1.prems" True] show ?thesis
      by (subst heightLoop.simps) (simp add: d algebra_simps)
  next
    case False
    with "1.prems" have e: "i + 1 = length hs" by simp
    have d: "drop i hs = [hs ! i]"
      using "1.prems" e by (metis Cons_nth_drop_Suc Suc_eq_plus1 drop_all le_refl)
    have stop: "heightLoop gap hs (i + 1) (totalHeight + hs ! i) = totalHeight + hs ! i"
      using e by (subst heightLoop.simps) simp
    from "1.prems" e stop show ?thesis
      by (subst heightLoop.simps) (simp add: d)
  qed
qed

lemma heightLoop_all:
  "hs \<noteq> [] \<Longrightarrow> heightLoop gap hs 0 0 = sum_list hs + (int (length hs) - 1) * gap"
  using heightLoop_sum [of 0 hs gap 0] by simp

lemma radial_height_ge: "28 \<le> calculateRadialMindMapTreeHeight n"
  by (cases n) simp

lemma sum_list_ge_first:
  "hs \<noteq> [] \<Longrightarrow> \<forall>h \<in> set hs. (28::int) \<le> h \<Longrightarrow> 28 \<le> sum_list hs"
proof (induction hs)
  case Nil
  then show ?case by simp
next
  case (Cons h hs)
  have "0 \<le> sum_list hs"
    using Cons.prems(2) by (intro sum_list_nonneg) fastforce
  with Cons.prems(2) show ?case by simp
qed

text \<open>
  C6. A collapsed or childless node has height 24 in the curved-connector family
  (\<open>calculateTreeHeight\<close>) and 28 in the orthogonal family
  (\<open>calculateRadialMindMapTreeHeight\<close>); every other node's height is the sum of its
  children's heights plus (count - 1) times the gap, the gap being 20 and 8.
\<close>

theorem subtree_height_recurrence:
  "calculateTreeHeight n =
     (if children n = [] \<or> collapsed n then 24
      else sum_list (map calculateTreeHeight (children n))
           + (int (length (children n)) - 1) * 20)
   \<and> calculateRadialMindMapTreeHeight n =
     (if children n = [] \<or> collapsed n then 28
      else sum_list (map calculateRadialMindMapTreeHeight (children n))
           + (int (length (children n)) - 1) * 8)"
proof (cases n)
  case (Node i t cs c nt)
  show ?thesis
  proof (cases "cs = [] \<or> c")
    case True
    with Node show ?thesis by auto
  next
    case False
    then have ne: "cs \<noteq> []" and nc: "\<not> c" by simp_all
    let ?hs = "map calculateRadialMindMapTreeHeight cs"
    have "28 \<le> sum_list ?hs"
      using ne by (intro sum_list_ge_first) (auto simp: radial_height_ge)
    moreover have "0 \<le> (int (length cs) - 1) * 8"
      using ne by (cases cs) simp_all
    ultimately have big: "28 \<le> sum_list ?hs + (int (length cs) - 1) * 8"
      by linarith
    from Node ne nc big show ?thesis
      by (simp add: heightLoop_all)
  qed
qed

section \<open>Text measurement\<close>

lemma widthLoop_count:
  "widthLoop chars fontSize totalWidth =
     totalWidth + real (length (filter (list_ex isCJK) chars)) * fontSize
       + real (length (filter (\<lambda>ch. \<not> list_ex isCJK ch) chars)) * (fontSize * 0.55)"
  by (induction chars arbitrary: totalWidth) (simp_all add: algebra_simps)

lemma labelFontSize_positive: "0 < max (10::real) (13 - real depth)"
  by simp

text \<open>
  C7, as stated, fails: at depth 0 (font size 13) the two CJK characters U+4E2D U+6587
  measure \<open>2 * 13 + 16 = 42\<close>, the four characters of \<open>abcd\<close> measure
  \<open>4 * (13 * 0.55) + 16 = 44.6\<close>.
\<close>

theorem cjk_pair_not_wider_than_abcd:
  "calculateTextWidth [0x4E2D, 0x6587] 0 = 42
   \<and> calculateTextWidth (js ''abcd'') 0 = 44.6
   \<and> \<not> calculateTextWidth [0x4E2D, 0x6587] 0 > calculateTextWidth (js ''abcd'') 0"
  by (simp add: calculateTextWidth_def isCJK_def isHighSurrogate_def isLowSurrogate_def js_def)

text \<open>
  C7, amended. For equal character counts the CJK widths dominate: of two strings with
  the same number \<open>n \<ge> 1\<close> of characters, one made of CJK or fullwidth characters
  only and one without any, the first measures \<open>n * fontSize + 16\<close>, the second
  \<open>n * 0.55 * fontSize + 16\<close>, and the first is strictly wider, at every depth.
\<close>

theorem cjk_wider_for_equal_counts:
  assumes "length (codePoints a) = length (codePoints b)"
    and "codePoints a \<noteq> []"
    and "list_all (list_ex isCJK) (codePoints a)"
    and "list_all (\<lambda>ch. \<not> list_ex isCJK ch) (codePoints b)"
  shows "calculateTextWidth a depth
           = real (length (codePoints a)) * max 10 (13 - real depth) + 16
         \<and> calculateTextWidth b depth
           = real (length (codePoints a)) * 0.55 * max 10 (13 - real depth) + 16
         \<and> calculateTextWidth a depth > calculateTextWidth b depth"
proof -
  let ?fs = "max (10::real) (13 - real depth)"
  let ?n = "real (length (codePoints a))"
  have fa: "filter (list_ex isCJK) (codePoints a) = codePoints a"
    using assms(3) by (simp add: list_all_iff)
  have fa': "filter (\<lambda>ch. \<not> list_ex isCJK ch) (codePoints a) = []"
    using assms(3) by (simp add: list_all_iff)
  have fb: "filter (list_ex isCJK) (codePoints b) = []"
    using assms(4) by (simp add: list_all_iff)
  have fb': "filter (\<lambda>ch. \<not> list_ex isCJK ch) (codePoints b) = codePoints b"
    using assms(4) by (simp add: list_all_iff)
  have wa: "calculateTextWidth a depth = ?n * ?fs + 16"
    by (simp only: calculateTextWidth_def Let_def widthLoop_count fa fa') simp
  have wb: "calculateTextWidth b depth = ?n * 0.55 * ?fs + 16"
    by (simp only: calculateTextWidth_def Let_def widthLoop_count fb fb' assms(1) [symmetric])
      simp
  have n: "0 < ?n" using assms(2) by simp
  have "?n * 0.55 * ?fs < ?n * ?fs"
    using n labelFontSize_positive [of depth] by simp
  with wa wb show ?thesis by simp
qed

text \<open>The two characters U+4E2D U+6587 against the two characters of \<open>ab\<close>.\<close>

theorem cjk_wider_witness:
  "calculateTextWidth [0x4E2D, 0x6587] 0 = 42
   \<and> calculateTextWidth (js ''ab'') 0 = 30.3
   \<and> calculateTextWidth [0x4E2D, 0x6587] 0 > calculateTextWidth (js ''ab'') 0"
proof -
  have h1: "length (codePoints [0x4E2D, 0x6587]) = length (codePoints (js ''ab''))"
    by (simp add: js_def isHighSurrogate_def)
  have h2: "codePoints [0x4E2D, 0x6587] \<noteq> []"
    by (simp add: isHighSurrogate_def)
  have h3: "list_all (list_ex isCJK) (codePoints [0x4E2D, 0x6587])"
    by (simp add: isHighSurrogate_def isCJK_def)
  have h4: "list_all (\<lambda>ch. \<not> list_ex isCJK ch) (codePoints (js ''ab''))"
    by (simp add: js_def isHighSurrogate_def isCJK_def)
  from cjk_wider_for_equal_counts [OF h1 h2 h3 h4, of 0] show ?thesis
    by (simp add: isHighSurrogate_def)
qed

section \<open>What a rendering draws\<close>

lemma drawChildRight_counts:
  "connectorCount (drawChildRight child pr py cy d cv) = connectorCount cv + 1"
  "drawnNodeCount (drawChildRight child pr py cy d cv) = drawnNodeCount cv + 1"
  "indicators (drawChildRight child pr py cy d cv) = indicators cv @
     (if children child = [] then []
      else [if collapsed child then ChildCount (length (children child)) else Dash])"
  by (simp_all add: drawChildRight_def Let_def createXMindCircle_def addNoteIcon_def
      connectorCount_def drawnNodeCount_def indicators_def)

lemma drawChildLeft_counts:
  "connectorCount (drawChildLeft child pl py cy d cv) = connectorCount cv + 1"
  "drawnNodeCount (drawChildLeft child pl py cy d cv) = drawnNodeCount cv + 1"
  "indicators (drawChildLeft child pl py cy d cv) = indicators cv @
     (if children child = [] then []
      else [if collapsed child then ChildCount (length (children child)) else Dash])"
  by (simp_all add: drawChildLeft_def Let_def createXMindCircle_def addNoteIcon_def
      connectorCount_def drawnNodeCount_def indicators_def)

text \<open>
  Each of the three recursive renderers adds one connector and one node background for
  every node visible below the parent, and one circle for every such node that has
  children. The proofs follow the recursion of the renderer.
\<close>

lemma outline_counts:
  "connectorCount (renderOutlineViewChildren cs pr py d cv) = connectorCount cv + drawnBelow cs
   \<and> drawnNodeCount (renderOutlineViewChildren cs pr py d cv) = drawnNodeCount cv + drawnBelow cs
   \<and> indicators (renderOutlineViewChildren cs pr py d cv) = indicators cv @ indicatorsBelow cs"
  "connectorCount (outlineForEach cs y pr py d cv) = connectorCount cv + drawnBelow cs
   \<and> drawnNodeCount (outlineForEach cs y pr py d cv) = drawnNodeCount cv + drawnBelow cs
   \<and> indicators (outlineForEach cs y pr py d cv) = indicators cv @ indicatorsBelow cs"
proof (induction cs pr py d cv and cs y pr py d cv
    rule: renderOutlineViewChildren_outlineForEach.induct)
  case (1 cs parentRight parentY depth cv)
  then show ?case by (simp add: Let_def)
next
  case (2 currentY parentRight parentY depth cv)
  then show ?case by simp
next
  case (3 i t cs c nt rest currentY parentRight parentY depth cv)
  show ?case
  proof (cases "\<not> c \<and> length cs > 0")
    case True
    with 3 show ?thesis
      by (simp add: Let_def drawChildRight_counts)
  next
    case False
    with 3 show ?thesis
      by (cases cs) (simp_all add: Let_def drawChildRight_counts)
  qed
qed

lemma right_counts:
  "connectorCount (renderRadialMindMapChildrenRight cs pr py d cv)
     = connectorCount cv + drawnBelow cs
   \<and> drawnNodeCount (renderRadialMindMapChildrenRight cs pr py d cv)
     = drawnNodeCount cv + drawnBelow cs
   \<and> indicators (renderRadialMindMapChildrenRight cs pr py d cv)
     = indicators cv @ indicatorsBelow cs"
  "connectorCount (rightForEach cs y pr py d cv) = connectorCount cv + drawnBelow cs
   \<and> drawnNodeCount (rightForEach cs y pr py d cv) = drawnNodeCount cv + drawnBelow cs
   \<and> indicators (rightForEach cs y pr py d cv) = indicators cv @ indicatorsBelow cs"
proof (induction cs pr py d cv and cs y pr py d cv
    rule: renderRadialMindMapChildrenRight_rightForEach.induct)
  case (1 cs parentRight parentY depth cv)
  then show ?case by (simp add: Let_def)
next
  case (2 currentY parentRight parentY depth cv)
  then show ?case by simp
next
  case (3 i t cs c nt rest currentY parentRight parentY depth cv)
  show ?case
  proof (cases "\<not> c \<and> length cs > 0")
    case True
    with 3 show ?thesis
      by (simp add: Let_def drawChildRight_counts)
  next
    case False
    with 3 show ?thesis
      by (cases cs) (simp_all add: Let_def drawChildRight_counts)
  qed
qed

lemma left_counts:
  "connectorCount (renderRadialMindMapChildrenLeft cs pl py d cv)
     = connectorCount cv + drawnBelow cs
   \<and> drawnNodeCount (renderRadialMindMapChildrenLeft cs pl py d cv)
     = drawnNodeCount cv + drawnBelow cs
   \<and> indicators (renderRadialMindMapChildrenLeft cs pl py d cv)
     = indicators cv @ indicatorsBelow cs"
  "connectorCount (leftForEach cs y pl py d cv) = connectorCount cv + drawnBelow cs
   \<and> drawnNodeCount (leftForEach cs y pl py d cv) = drawnNodeCount cv + drawnBelow cs
   \<and> indicators (leftForEach cs y pl py d cv) = indicators cv @ indicatorsBelow cs"
proof (induction cs pl py d cv and cs y pl py d cv
    rule: renderRadialMindMapChildrenLeft_leftForEach.induct)
  case (1 cs parentLeft parentY depth cv)
  then show ?case by (simp add: Let_def)
next
  case (2 currentY parentLeft parentY depth cv)
  then show ?case by simp
next
  case (3 i t cs c nt rest currentY parentLeft parentY depth cv)
  show ?case
  proof (cases "\<not> c \<and> length cs > 0")
    case True
    with 3 show ?thesis
      by (simp add: Let_def drawChildLeft_counts)
  next
    case False
    with 3 show ?thesis
      by (cases cs) (simp_all add: Let_def drawChildLeft_counts)
  qed
qed

lemma drawnBelow_append: "drawnBelow (xs @ ys) = drawnBelow xs + drawnBelow ys"
  by (induction xs rule: drawnBelow.induct) simp_all

lemma indicatorsBelow_append:
  "indicatorsBelow (xs @ ys) = indicatorsBelow xs @ indicatorsBelow ys"
  by (induction xs rule: indicatorsBelow.induct) simp_all

lemma drawnBelow_ge_length: "length cs \<le> drawnBelow cs"
  by (induction cs rule: drawnBelow.induct) simp_all

lemma root_drawn:
  "connectorCount (cv\<lparr>nodesGroup := ns\<rparr>) = connectorCount cv"
  "drawnNodeCount (addNoteIcon x y f cv) = drawnNodeCount cv"
  "connectorCount (addNoteIcon x y f cv) = connectorCount cv"
  "indicators (addNoteIcon x y f cv) = indicators cv"
  by (simp_all add: connectorCount_def drawnNodeCount_def indicators_def addNoteIcon_def)

text \<open>
  The two renderers of the root draw the root's background and label, never a circle
  for the root, and then the children whenever there are any: neither reads the
  collapsed flag of the root where it decides to draw them.
\<close>

lemma renderOutlineView_counts:
  "connectorCount (renderOutlineView r \<lparr>linesGroup = [], nodesGroup = []\<rparr>)
     = drawnBelow (children r)
   \<and> drawnNodeCount (renderOutlineView r \<lparr>linesGroup = [], nodesGroup = []\<rparr>)
     = 1 + drawnBelow (children r)
   \<and> indicators (renderOutlineView r \<lparr>linesGroup = [], nodesGroup = []\<rparr>)
     = indicatorsBelow (children r)"
proof (cases "children r = []")
  case True
  then show ?thesis
    by (simp add: renderOutlineView_def Let_def root_drawn)
      (simp add: connectorCount_def drawnNodeCount_def indicators_def)
next
  case False
  then show ?thesis
    by (simp add: renderOutlineView_def Let_def root_drawn outline_counts
        del: renderOutlineViewChildren.simps)
      (simp add: connectorCount_def drawnNodeCount_def indicators_def)
qed

lemma renderRadialMindMap_counts:
  "connectorCount (renderRadialMindMap r \<lparr>linesGroup = [], nodesGroup = []\<rparr>)
     = drawnBelow (children r)
   \<and> drawnNodeCount (renderRadialMindMap r \<lparr>linesGroup = [], nodesGroup = []\<rparr>)
     = 1 + drawnBelow (children r)
   \<and> indicators (renderRadialMindMap r \<lparr>linesGroup = [], nodesGroup = []\<rparr>)
     = indicatorsBelow (children r)"
proof -
  let ?k = "(length (children r) + 1) div 2"
  have split: "children r = take ?k (children r) @ drop ?k (children r)" by simp
  have d: "drawnBelow (children r)
      = drawnBelow (take ?k (children r)) + drawnBelow (drop ?k (children r))"
    by (subst split) (simp only: drawnBelow_append)
  have i: "indicatorsBelow (children r)
      = indicatorsBelow (take ?k (children r)) @ indicatorsBelow (drop ?k (children r))"
    by (subst split) (simp only: indicatorsBelow_append)
  have base: "connectorCount \<lparr>linesGroup = [], nodesGroup = [Rect x y w h, Label a b t]\<rparr> = 0"
    "drawnNodeCount \<lparr>linesGroup = [], nodesGroup = [Rect x y w h, Label a b t]\<rparr> = 1"
    "indicators \<lparr>linesGroup = [], nodesGroup = [Rect x y w h, Label a b t]\<rparr> = []"
    for x y w h a b t
    by (simp_all add: connectorCount_def drawnNodeCount_def indicators_def)
  show ?thesis
    unfolding d i
    by (simp add: renderRadialMindMap_def Let_def root_drawn right_counts left_counts base
        del: renderRadialMindMapChildrenRight.simps renderRadialMindMapChildrenLeft.simps)
qed

lemma renderTree_counts:
  "connectorCount (renderTree mode r) = drawnBelow (children r)
   \<and> drawnNodeCount (renderTree mode r) = 1 + drawnBelow (children r)
   \<and> indicators (renderTree mode r) = indicatorsBelow (children r)"
  by (cases mode) (simp_all only: renderTree_def renderMode.case renderOutlineView_counts
      renderRadialMindMap_counts simp_thms)

text \<open>
  C8, as stated, fails: the outline \<open>"# R\n- A"\<close>, parsed while the store holds the
  root as collapsed, gives a collapsed root with one child, and that tree is drawn, in
  both render modes, with one connector path and two nodes, and without any collapse
  indicator.
\<close>

theorem collapsed_root_counterexample:
  "parseMarkdownList [js ''root'' \<mapsto> True] (js ''# R'' @ [0x0A] @ js ''- A'')
     = Some (Node (js ''root'') (js ''R'') [Node (js ''list-0-0-A'') (js ''A'') [] False None]
         True None)
   \<and> connectorCount (renderTree Logic
       (Node (js ''root'') (js ''R'') [Node (js ''list-0-0-A'') (js ''A'') [] False None]
          True None)) = 1
   \<and> drawnNodeCount (renderTree Logic
       (Node (js ''root'') (js ''R'') [Node (js ''list-0-0-A'') (js ''A'') [] False None]
          True None)) = 2
   \<and> indicators (renderTree Logic
       (Node (js ''root'') (js ''R'') [Node (js ''list-0-0-A'') (js ''A'') [] False None]
          True None)) = []
   \<and> connectorCount (renderTree Clockwise
       (Node (js ''root'') (js ''R'') [Node (js ''list-0-0-A'') (js ''A'') [] False None]
          True None)) = 1
   \<and> drawnNodeCount (renderTree Clockwise
       (Node (js ''root'') (js ''R'') [Node (js ''list-0-0-A'') (js ''A'') [] False None]
          True None)) = 2
   \<and> indicators (renderTree Clockwise
       (Node (js ''root'') (js ''R'') [Node (js ''list-0-0-A'') (js ''A'') [] False None]
          True None)) = []"
proof -
  have p: "parseMarkdownList [js ''root'' \<mapsto> True] (js ''# R'' @ [0x0A] @ js ''- A'')
     = Some (Node (js ''root'') (js ''R'') [Node (js ''list-0-0-A'') (js ''A'') [] False None]
         True None)"
    by (simp add: str_eval tree_eval parse_eval getCollapsed_def)
  show ?thesis
    by (simp only: p renderTree_counts) simp
qed

text \<open>
  C8, amended. The root offers no collapse control and its collapsed flag does not hide
  its children: for every tree whose root is collapsed and has at least one child, a
  rendering in either mode draws one connector path for every node visible below the
  root (each child of the root, and what is visible below a child that is not
  collapsed), hence at least one per child of the root; it draws one node more than
  connectors; and its collapse indicators are those of the visible nodes below the
  root that have children, each showing the number of children when that node is
  collapsed and a dash otherwise.
\<close>

theorem collapsed_root_still_draws_children:
  assumes "collapsed rootNode" and "children rootNode \<noteq> []"
  shows "connectorCount (renderTree mode rootNode) = drawnBelow (children rootNode)
         \<and> length (children rootNode) \<le> connectorCount (renderTree mode rootNode)
         \<and> 0 < connectorCount (renderTree mode rootNode)
         \<and> drawnNodeCount (renderTree mode rootNode)
             = 1 + connectorCount (renderTree mode rootNode)
         \<and> indicators (renderTree mode rootNode) = indicatorsBelow (children rootNode)"
proof -
  have "0 < length (children rootNode)" using assms(2) by simp
  with drawnBelow_ge_length [of "children rootNode"]
  have "0 < drawnBelow (children rootNode)" by linarith
  with drawnBelow_ge_length [of "children rootNode"] show ?thesis
    by (simp add: renderTree_counts)
qed

text \<open>
  A collapsed root with two children, the first of them collapsed over one child of its
  own: two connectors, three nodes, and one indicator, which shows the 1 of the child.
\<close>

theorem collapsed_root_witness:
  "connectorCount (renderTree Clockwise
     (Node (js ''root'') (js ''R'')
        [Node (js ''list-0-0-A'') (js ''A'') [Node (js ''list-2-1-B'') (js ''B'') [] False None]
           True None,
         Node (js ''list-0-2-C'') (js ''C'') [] False None] True None)) = 2
   \<and> drawnNodeCount (renderTree Clockwise
     (Node (js ''root'') (js ''R'')
        [Node (js ''list-0-0-A'') (js ''A'') [Node (js ''list-2-1-B'') (js ''B'') [] False None]
           True None,
         Node (js ''list-0-2-C'') (js ''C'') [] False None] True None)) = 3
   \<and> indicators (renderTree Clockwise
     (Node (js ''root'') (js ''R'')
        [Node (js ''list-0-0-A'') (js ''A'') [Node (js ''list-2-1-B'') (js ''B'') [] False None]
           True None,
         Node (js ''list-0-2-C'') (js ''C'') [] False None] True None)) = [ChildCount 1]"
proof -
  let ?r = "Node (js ''root'') (js ''R'')
        [Node (js ''list-0-0-A'') (js ''A'') [Node (js ''list-2-1-B'') (js ''B'') [] False None]
           True None,
         Node (js ''list-0-2-C'') (js ''C'') [] False None] True None"
  have h1: "collapsed ?r" by simp
  have h2: "children ?r \<noteq> []" by simp
  from collapsed_root_still_draws_children [OF h1 h2, of Clockwise] show ?thesis
    by simp
qed

section \<open>Numeric inputs\<close>

lemma parseInt_1000: "parseInt (js ''1000'') = Some 1000"
  by (simp add: parseInt_def js_def isSpace_def digitValue_def)

text \<open>
  C9, as stated, fails for the note panel width: with the width set to 300, the input
  \<open>1000\<close> leaves it at 300; clamping would have made it 800.
\<close>

theorem note_panel_width_counterexample:
  "notePanelWidth (notePanelWidthOnChange (js ''1000'')
       \<lparr>enableWheelZoom = True, enablePinchZoom = True, defaultRenderMode = Logic,
        notePanelWidth = 300\<rparr>) = 300
   \<and> notePanelWidth (notePanelWidthOnChange (js ''1000'')
       \<lparr>enableWheelZoom = True, enablePinchZoom = True, defaultRenderMode = Logic,
        notePanelWidth = 300\<rparr>) \<noteq> max 200 (min 800 1000)"
  by (simp add: notePanelWidthOnChange_def parseInt_1000)

text \<open>
  The width is the integer \<open>parseInt\<close> reads from the start of the input: the input
  \<open>800.9\<close> is read as 800.
\<close>

lemma parseInt_800_9: "parseInt (js ''800.9'') = Some 800"
  by (simp add: parseInt_def js_def isSpace_def digitValue_def)

text \<open>
  C9, amended. Every call of \<open>zoom\<close> leaves the scale within [0.1, 5.0], whatever the
  factor. For the note panel width, what counts is the integer that \<open>parseInt\<close> reads
  from the input: when there is none, or when it lies outside [200, 800], the input is
  ignored and the settings stay as they are; when it lies within [200, 800], that
  integer is stored.
\<close>

theorem zoom_clamped_width_rejected:
  "0.1 \<le> scale (zoom factor center r) \<and> scale (zoom factor center r) \<le> 5
   \<and> (case parseInt val of
        None \<Rightarrow> notePanelWidthOnChange val st = st
      | Some width \<Rightarrow>
          if 200 \<le> width \<and> width \<le> 800
          then notePanelWidthOnChange val st = st\<lparr>notePanelWidth := width\<rparr>
          else notePanelWidthOnChange val st = st)"
proof -
  have z: "0.1 \<le> scale (zoom factor center r) \<and> scale (zoom factor center r) \<le> 5"
    by (cases center) (auto simp: zoom_def Let_def split: prod.splits)
  have w: "(case parseInt val of
        None \<Rightarrow> notePanelWidthOnChange val st = st
      | Some width \<Rightarrow>
          if 200 \<le> width \<and> width \<le> 800
          then notePanelWidthOnChange val st = st\<lparr>notePanelWidth := width\<rparr>
          else notePanelWidthOnChange val st = st)"
    by (simp add: notePanelWidthOnChange_def split: option.splits)
  from z w show ?thesis by blast
qed

section \<open>View fitting\<close>

text \<open>
  \<open>centerTree\<close> written out: the scale is the least of 1, the width ratio and the
  height ratio, and the two translations follow from it.
\<close>

lemma centerTree_eq:
  "centerTree b w h r =
     r\<lparr>scale := min 1 (min (((if w = 0 then 800 else real w) - 80) / bbox_width b)
                           (((if h = 0 then 600 else real h) - 60) / bbox_height b)),
       translateX := 40 - bbox_x b
          * min 1 (min (((if w = 0 then 800 else real w) - 80) / bbox_width b)
                       (((if h = 0 then 600 else real h) - 60) / bbox_height b)),
       translateY := ((if h = 0 then 600 else real h) - bbox_height b
          * min 1 (min (((if w = 0 then 800 else real w) - 80) / bbox_width b)
                       (((if h = 0 then 600 else real h) - 60) / bbox_height b))) / 2
          - bbox_y b
          * min 1 (min (((if w = 0 then 800 else real w) - 80) / bbox_width b)
                       (((if h = 0 then 600 else real h) - 60) / bbox_height b))\<rparr>"
proof -
  have "min (min (min 1 x) (min 1 y)) 1 = min 1 (min x y)" for x y :: real
    by (simp add: min_def)
  then show ?thesis by (simp add: centerTree_def Let_def)
qed

text \<open>
  The scale that \<open>centerTree\<close> sets is not kept within the range of \<open>zoom\<close>: a
  drawing of 10000 by 100 in a viewport of 800 by 600 is fitted with the scale 0.072.
\<close>

lemma centerTree_scale_below_zoom_range:
  "scale (centerTree \<lparr>bbox_x = 0, bbox_y = 0, bbox_width = 10000, bbox_height = 100\<rparr> 800 600
     \<lparr>renderMode = Logic, scale = 1, translateX = 0, translateY = 0\<rparr>) = 0.072"
  by (simp add: centerTree_def Let_def)

text \<open>
  C10, as stated, fails for the radial mode. The text \<open>"# R"\<close> parses to a single
  node, which the radial renderer draws as the rectangle (388.425, 288, 23.15, 24)
  around the canvas centre (400, 300), with the label inside it. Fitted into a viewport
  of 800 by 600 with that rectangle as the bounding box, the drawing has its left edge
  at 40 and its centre at 51.575, not at the centre 400 of the viewport.
\<close>

theorem radial_not_centered_counterexample:
  "parseMarkdownList Map.empty (js ''# R'')
     = Some (Node (js ''heading-1-0-R'') (js ''R'') [] False None)
   \<and> renderTree Clockwise (Node (js ''heading-1-0-R'') (js ''R'') [] False None)
     = \<lparr>linesGroup = [],
        nodesGroup = [Rect 388.425 288 23.15 24, Label 400 305 (js ''R'')]\<rparr>
   \<and> translateX (centerTree
         \<lparr>bbox_x = 388.425, bbox_y = 288, bbox_width = 23.15, bbox_height = 24\<rparr> 800 600
         \<lparr>renderMode = Clockwise, scale = 1, translateX = 0, translateY = 0\<rparr>)
       + (388.425 + 23.15 / 2)
         * scale (centerTree
             \<lparr>bbox_x = 388.425, bbox_y = 288, bbox_width = 23.15, bbox_height = 24\<rparr> 800 600
             \<lparr>renderMode = Clockwise, scale = 1, translateX = 0, translateY = 0\<rparr>)
       = 51.575
   \<and> translateX (centerTree
         \<lparr>bbox_x = 388.425, bbox_y = 288, bbox_width = 23.15, bbox_height = 24\<rparr> 800 600
         \<lparr>renderMode = Clockwise, scale = 1, translateX = 0, translateY = 0\<rparr>)
       + (388.425 + 23.15 / 2)
         * scale (centerTree
             \<lparr>bbox_x = 388.425, bbox_y = 288, bbox_width = 23.15, bbox_height = 24\<rparr> 800 600
             \<lparr>renderMode = Clockwise, scale = 1, translateX = 0, translateY = 0\<rparr>)
       \<noteq> 800 / 2"
proof -
  have p: "parseMarkdownList Map.empty (js ''# R'')
     = Some (Node (js ''heading-1-0-R'') (js ''R'') [] False None)"
    by (simp add: str_eval tree_eval parse_eval getCollapsed_def)
  have d: "renderTree Clockwise (Node (js ''heading-1-0-R'') (js ''R'') [] False None)
     = \<lparr>linesGroup = [],
        nodesGroup = [Rect 388.425 288 23.15 24, Label 400 305 (js ''R'')]\<rparr>"
    by (simp add: renderTree_def renderRadialMindMap_def Let_def calculateTextWidth_def
        hasNote_def js_def isCJK_def)
  have c: "translateX (centerTree
         \<lparr>bbox_x = 388.425, bbox_y = 288, bbox_width = 23.15, bbox_height = 24\<rparr> 800 600
         \<lparr>renderMode = Clockwise, scale = 1, translateX = 0, translateY = 0\<rparr>)
       + (388.425 + 23.15 / 2)
         * scale (centerTree
             \<lparr>bbox_x = 388.425, bbox_y = 288, bbox_width = 23.15, bbox_height = 24\<rparr> 800 600
             \<lparr>renderMode = Clockwise, scale = 1, translateX = 0, translateY = 0\<rparr>)
       = 51.575"
    by (simp add: centerTree_def Let_def)
  have n: "(51.575::real) \<noteq> 800 / 2" by simp
  have c': "translateX (centerTree
         \<lparr>bbox_x = 388.425, bbox_y = 288, bbox_width = 23.15, bbox_height = 24\<rparr> 800 600
         \<lparr>renderMode = Clockwise, scale = 1, translateX = 0, translateY = 0\<rparr>)
       + (388.425 + 23.15 / 2)
         * scale (centerTree
             \<lparr>bbox_x = 388.425, bbox_y = 288, bbox_width = 23.15, bbox_height = 24\<rparr> 800 600
             \<lparr>renderMode = Clockwise, scale = 1, translateX = 0, translateY = 0\<rparr>)
       \<noteq> 800 / 2"
    unfolding c by (rule n)
  show ?thesis
    by (rule conjI [OF p conjI [OF d conjI [OF c c']]])
qed

text \<open>
  C10, amended. For a bounding box of positive width and height and a viewport wider
  than 80 and taller than 60, in outline mode and in radial mode alike (the mode is not
  read): the scale is positive and at most 1; the translation puts the left edge of the
  content at the fixed margin 40, the content extending to the right of it, and centres
  the content vertically in the viewport; and the content is centred horizontally
  exactly when the width is what limits the fit, that is when the ratio
  \<open>(viewport width - 80) / bbox.width\<close> is at most 1 and at most
  \<open>(viewport height - 60) / bbox.height\<close>, so that the content fills the viewport
  between two margins of 40.
\<close>

theorem centerTree_left_aligns_and_centers_vertically:
  assumes "0 < bbox_width b" and "0 < bbox_height b"
    and "w = 0 \<or> 80 < w" and "h = 0 \<or> 60 < h"
  shows "0 < scale (centerTree b w h r) \<and> scale (centerTree b w h r) \<le> 1
         \<and> translateX (centerTree b w h r) + bbox_x b * scale (centerTree b w h r) = 40
         \<and> 40 < translateX (centerTree b w h r)
                  + (bbox_x b + bbox_width b) * scale (centerTree b w h r)
         \<and> translateY (centerTree b w h r)
             + (bbox_y b + bbox_height b / 2) * scale (centerTree b w h r)
           = (if h = 0 then 600 else real h) / 2
         \<and> (translateX (centerTree b w h r)
               + (bbox_x b + bbox_width b / 2) * scale (centerTree b w h r)
               = (if w = 0 then 800 else real w) / 2)
           = (((if w = 0 then 800 else real w) - 80) / bbox_width b \<le> 1
              \<and> ((if w = 0 then 800 else real w) - 80) / bbox_width b
                  \<le> ((if h = 0 then 600 else real h) - 60) / bbox_height b)
         \<and> centerTree b w h (r\<lparr>renderMode := md\<rparr>) = (centerTree b w h r)\<lparr>renderMode := md\<rparr>"
proof -
  define W where "W = (if w = 0 then 800 else real w)"
  define H where "H = (if h = 0 then 600 else real h)"
  define a where "a = (W - 80) / bbox_width b"
  define c where "c = (H - 60) / bbox_height b"
  define s where "s = min 1 (min a c)"
  have Wp: "0 < W - 80" using assms(3) by (auto simp: W_def)
  have Hp: "0 < H - 60" using assms(4) by (auto simp: H_def)
  have ap: "0 < a" using Wp assms(1) by (simp add: a_def)
  have cp: "0 < c" using Hp assms(2) by (simp add: c_def)
  have sp: "0 < s" and s1: "s \<le> 1" using ap cp by (simp_all add: s_def)
  have sc: "scale (centerTree b w h r) = s"
    and tx: "translateX (centerTree b w h r) = 40 - bbox_x b * s"
    and ty: "translateY (centerTree b w h r) = (H - bbox_height b * s) / 2 - bbox_y b * s"
    by (simp_all add: centerTree_eq s_def a_def c_def W_def H_def)
  have md: "centerTree b w h (r\<lparr>renderMode := md\<rparr>) = (centerTree b w h r)\<lparr>renderMode := md\<rparr>"
    by (simp add: centerTree_eq)
  have right: "40 < 40 - bbox_x b * s + (bbox_x b + bbox_width b) * s"
    using sp assms(1) by (simp add: algebra_simps)
  have vert: "(H - bbox_height b * s) / 2 - bbox_y b * s + (bbox_y b + bbox_height b / 2) * s = H / 2"
    by (simp add: field_simps)
  have "(40 - bbox_x b * s + (bbox_x b + bbox_width b / 2) * s = W / 2)
        = (bbox_width b * s = W - 80)"
    by (auto simp: field_simps)
  also have "\<dots> = (s = a)"
    using assms(1) by (auto simp: a_def field_simps)
  also have "\<dots> = (a \<le> 1 \<and> a \<le> c)"
    by (auto simp: s_def min_def)
  finally have horiz: "(40 - bbox_x b * s + (bbox_x b + bbox_width b / 2) * s = W / 2)
        = (a \<le> 1 \<and> a \<le> c)" .
  show ?thesis
    unfolding sc tx ty
    using sp s1 right vert horiz md
    by (simp add: a_def c_def W_def H_def)
qed

text \<open>
  A radial drawing of 1440 by 100 at (-320, 250), fitted into 800 by 600: the width
  limits the fit, the scale is 1/2, and the content is centred both ways.
\<close>

theorem centerTree_witness:
  "scale (centerTree \<lparr>bbox_x = - 320, bbox_y = 250, bbox_width = 1440, bbox_height = 100\<rparr>
       800 600 \<lparr>renderMode = Clockwise, scale = 1, translateX = 0, translateY = 0\<rparr>) = 1 / 2
   \<and> translateX (centerTree
       \<lparr>bbox_x = - 320, bbox_y = 250, bbox_width = 1440, bbox_height = 100\<rparr>
       800 600 \<lparr>renderMode = Clockwise, scale = 1, translateX = 0, translateY = 0\<rparr>) = 200
   \<and> translateY (centerTree
       \<lparr>bbox_x = - 320, bbox_y = 250, bbox_width = 1440, bbox_height = 100\<rparr>
       800 600 \<lparr>renderMode = Clockwise, scale = 1, translateX = 0, translateY = 0\<rparr>) = 150
   \<and> translateX (centerTree
       \<lparr>bbox_x = - 320, bbox_y = 250, bbox_width = 1440, bbox_height = 100\<rparr>
       800 600 \<lparr>renderMode = Clockwise, scale = 1, translateX = 0, translateY = 0\<rparr>)
     + (- 320 + 1440 / 2)
       * scale (centerTree
           \<lparr>bbox_x = - 320, bbox_y = 250, bbox_width = 1440, bbox_height = 100\<rparr>
           800 600 \<lparr>renderMode = Clockwise, scale = 1, translateX = 0, translateY = 0\<rparr>)
     = 800 / 2"
proof -
  let ?b = "\<lparr>bbox_x = - 320, bbox_y = 250, bbox_width = 1440, bbox_height = 100\<rparr>"
  let ?r = "\<lparr>renderMode = Clockwise, scale = 1, translateX = 0, translateY = 0\<rparr>"
  have h1: "0 < bbox_width ?b" by simp
  have h2: "0 < bbox_height ?b" by simp
  have h3: "(800::nat) = 0 \<or> 80 < (800::nat)" by simp
  have h4: "(600::nat) = 0 \<or> 60 < (600::nat)" by simp
  have sc: "scale (centerTree ?b 800 600 ?r) = 1 / 2"
    by (simp add: centerTree_def Let_def)
  note t = centerTree_left_aligns_and_centers_vertically [OF h1 h2 h3 h4, of ?r]
  have left: "translateX (centerTree ?b 800 600 ?r)
      + bbox_x ?b * scale (centerTree ?b 800 600 ?r) = 40"
    by (rule t [THEN conjunct2, THEN conjunct2, THEN conjunct1])
  have vert: "translateY (centerTree ?b 800 600 ?r)
      + (bbox_y ?b + bbox_height ?b / 2) * scale (centerTree ?b 800 600 ?r)
      = (if (600::nat) = 0 then 600 else real 600) / 2"
    by (rule t [THEN conjunct2, THEN conjunct2, THEN conjunct2, THEN conjunct2, THEN conjunct1])
  from left sc have tx: "translateX (centerTree ?b 800 600 ?r) = 200" by simp
  from vert sc have ty: "translateY (centerTree ?b 800 600 ?r) = 150" by simp
  show ?thesis
    unfolding sc tx ty by simp
qed


end
